theory Spec2Isabelle
  imports Complex_Main "HOL-Library.Char_ord" "HOL-Library.List_Lexorder" "HOL-Library.Option_ord"
begin

section \<open>The book document (src/models/bookModel.js)\<close>

text \<open>
  JavaScript numbers that the schemas constrain to integers (copy counts, ratings, years,
  page numbers, time stamps in milliseconds) are \<open>int\<close>; quotients (the average rating,
  \<open>totalBooks / limit\<close>) are exact rationals. Range, length and enum validators of the
  Joi and Mongoose schemas are not part of the functions below, which are defined on every
  value of the field types.
\<close>

datatype status = Available | Borrowed | Reserved | Maintenance

record review =
  rating :: int
  comment :: "string option"
  reviewerName :: string
  reviewDate :: int

record borrow_entry =
  name :: string
  email :: string
  borrowDate :: int
  dueDate :: int

record availability =
  status :: status
  totalCopies :: int
  availableCopies :: int
  borrowedBy :: "borrow_entry list"

record book =
  doc_id :: string
  title :: string
  author :: string
  genre :: string
  publicationYear :: "int option"
  description :: "string option"
  availability :: availability
  reviews :: "review list"
  averageRating :: rat
  totalReviews :: int
  tags :: "string list"
  createdAt :: int
  updatedAt :: int

text \<open>
  A plain \<open>Error\<close> thrown by a document method, an \<open>AppError\<close> (message, HTTP status code)
  passed to \<open>next\<close> by a controller, and a rejection by the document store.
\<close>

datatype error = Error string | AppError string nat | MongoError string

text \<open>\<open>Math.round\<close>: the nearest integer, a tie going to the larger one.\<close>

definition Math_round :: "rat \<Rightarrow> int" where
  "Math_round x = \<lfloor>x + 1 / 2\<rfloor>"

text \<open>The \<open>pre('save')\<close> hook: the rating aggregate, then the clamp of the available copies.\<close>

definition pre_save :: "book \<Rightarrow> book" where
  "pre_save b =
     (let b1 =
        (if length (reviews b) > 0
         then
           (let totalRating = foldl (\<lambda>sum r. sum + rating r) 0 (reviews b)
            in b\<lparr>averageRating :=
                   of_int (Math_round (of_int totalRating / of_int (int (length (reviews b))) * 10)) / 10,
                 totalReviews := int (length (reviews b))\<rparr>)
         else b\<lparr>averageRating := 0, totalReviews := 0\<rparr>)
      in if availableCopies (availability b1) > totalCopies (availability b1)
         then b1\<lparr>availability :=
                  (availability b1)\<lparr>availableCopies := totalCopies (availability b1)\<rparr>\<rparr>
         else b1)"

text \<open>
  \<open>save()\<close> of a modified document at time \<open>now\<close>: the hook, then the \<open>updatedAt\<close>
  stamp of \<open>timestamps: true\<close>. Mongoose validates the document before the hook and
  rejects the save of one outside the schema (a negative count, a rating outside 1..5);
  this rejection is not modelled, so \<open>save\<close> stands for the save of a document that
  passes the validators, and a property that rests on a save succeeding is stated for
  such documents.
\<close>

definition save :: "int \<Rightarrow> book \<Rightarrow> book" where
  "save now b = (pre_save b)\<lparr>updatedAt := now\<rparr>"

record reviewData =
  rd_rating :: int
  rd_comment :: "string option"
  rd_reviewerName :: string

definition addReview :: "int \<Rightarrow> reviewData \<Rightarrow> book \<Rightarrow> book" where
  "addReview now rd b =
     save now (b\<lparr>reviews := reviews b @
        [\<lparr>rating = rd_rating rd, comment = rd_comment rd,
          reviewerName = rd_reviewerName rd, reviewDate = now\<rparr>]\<rparr>)"

record borrowerInfo =
  bi_name :: string
  bi_email :: string
  bi_dueDate :: "int option"

definition borrowBook :: "int \<Rightarrow> borrowerInfo \<Rightarrow> book \<Rightarrow> error + book" where
  "borrowBook now info b =
     (if availableCopies (availability b) \<le> 0
      then Inl (Error ''No copies available for borrowing'')
      else
        (let a = availability b;
             a1 = a\<lparr>borrowedBy := borrowedBy a @
                    [\<lparr>name = bi_name info, email = bi_email info, borrowDate = now,
                      dueDate = (case bi_dueDate info of
                                   Some d \<Rightarrow> d
                                 | None \<Rightarrow> now + 14 * 24 * 60 * 60 * 1000)\<rparr>]\<rparr>;
             a2 = a1\<lparr>availableCopies := availableCopies a1 - 1\<rparr>;
             a3 = (if availableCopies a2 = 0 then a2\<lparr>status := Borrowed\<rparr> else a2)
         in Inr (save now (b\<lparr>availability := a3\<rparr>))))"

text \<open>\<open>Array.prototype.findIndex\<close>, with \<open>None\<close> for \<open>-1\<close>, and \<open>splice(i, 1)\<close>.\<close>

fun findIndex :: "('a \<Rightarrow> bool) \<Rightarrow> 'a list \<Rightarrow> nat option" where
  "findIndex p [] = None"
| "findIndex p (x # xs) =
     (if p x then Some 0 else (case findIndex p xs of None \<Rightarrow> None | Some i \<Rightarrow> Some (Suc i)))"

definition splice1 :: "nat \<Rightarrow> 'a list \<Rightarrow> 'a list" where
  "splice1 i xs = take i xs @ drop (Suc i) xs"

definition returnBook :: "int \<Rightarrow> string \<Rightarrow> book \<Rightarrow> error + book" where
  "returnBook now borrowerEmail b =
     (case findIndex (\<lambda>borrow. email borrow = borrowerEmail) (borrowedBy (availability b)) of
        None \<Rightarrow> Inl (Error ''No borrow record found for this email'')
      | Some borrowIndex \<Rightarrow>
          (let a = availability b;
               a1 = a\<lparr>borrowedBy := splice1 borrowIndex (borrowedBy a)\<rparr>;
               a2 = a1\<lparr>availableCopies := availableCopies a1 + 1\<rparr>;
               a3 = (if availableCopies a2 > 0 then a2\<lparr>status := Available\<rparr> else a2)
           in Inr (save now (b\<lparr>availability := a3\<rparr>))))"

section \<open>The collection and the book actions (src/controllers/bookController.js)\<close>

text \<open>
  The collection is the list of its documents in natural order. \<open>findById\<close> reads a
  document, \<open>persist\<close> is the write of \<open>save()\<close> back under the same id. A handler returns
  what it sends (\<open>Inl\<close> the error given to \<open>next\<close>) and the collection it leaves.
\<close>

definition findById :: "string \<Rightarrow> book list \<Rightarrow> book option" where
  "findById i db = find (\<lambda>b. doc_id b = i) db"

definition persist :: "book \<Rightarrow> book list \<Rightarrow> book list" where
  "persist b db = map (\<lambda>x. if doc_id x = doc_id b then b else x) db"

fun message :: "error \<Rightarrow> string" where
  "message (Error m) = m"
| "message (AppError m c) = m"
| "message (MongoError m) = m"

definition borrowBook_controller ::
  "int \<Rightarrow> string \<Rightarrow> borrowerInfo \<Rightarrow> book list \<Rightarrow> (error + book) \<times> book list" where
  "borrowBook_controller now i body db =
     (case findById i db of
        None \<Rightarrow> (Inl (AppError ''Book not found'' 404), db)
      | Some book \<Rightarrow>
          if availableCopies (availability book) \<le> 0
          then (Inl (AppError ''No copies available for borrowing'' 400), db)
          else
            (case find (\<lambda>borrow. email borrow = bi_email body) (borrowedBy (availability book)) of
               Some existingBorrow \<Rightarrow> (Inl (AppError ''You have already borrowed this book'' 400), db)
             | None \<Rightarrow>
                 (case borrowBook now body book of
                    Inl e \<Rightarrow> (Inl e, db)
                  | Inr book' \<Rightarrow> (Inr book', persist book' db))))"

definition returnBook_controller ::
  "int \<Rightarrow> string \<Rightarrow> string \<Rightarrow> book list \<Rightarrow> (error + book) \<times> book list" where
  "returnBook_controller now i body_email db =
     (case findById i db of
        None \<Rightarrow> (Inl (AppError ''Book not found'' 404), db)
      | Some book \<Rightarrow>
          (case returnBook now body_email book of
             Inl e \<Rightarrow> (Inl (AppError (message e) 400), db)
           | Inr book' \<Rightarrow> (Inr book', persist book' db)))"

section \<open>Queries of the document store\<close>

text \<open>
  \<open>sort\<close> is modelled by a stable insertion sort on the comparison the sort document
  gives; the store leaves the order of equal keys open, and the properties below only rest
  on the result being ordered. A missing field sorts before every value. \<open>limit\<close> takes
  the absolute value of a negative count and does not limit at \<open>0\<close>, as the driver does;
  a negative \<open>skip\<close> is rejected by the store.
\<close>

fun insert_by :: "('a \<Rightarrow> 'a \<Rightarrow> bool) \<Rightarrow> 'a \<Rightarrow> 'a list \<Rightarrow> 'a list" where
  "insert_by le x [] = [x]"
| "insert_by le x (y # ys) = (if le x y then x # y # ys else y # insert_by le x ys)"

definition sort_by :: "('a \<Rightarrow> 'a \<Rightarrow> bool) \<Rightarrow> 'a list \<Rightarrow> 'a list" where
  "sort_by le xs = foldr (insert_by le) xs []"

definition limit_docs :: "int \<Rightarrow> 'a list \<Rightarrow> 'a list" where
  "limit_docs n xs = (if n = 0 then xs else take (nat \<bar>n\<bar>) xs)"

datatype sort_field = by_title | by_author | by_publicationYear | by_averageRating | by_createdAt

datatype sort_order = asc | desc

fun field_lt :: "sort_field \<Rightarrow> book \<Rightarrow> book \<Rightarrow> bool" where
  "field_lt by_title a b = (title a < title b)"
| "field_lt by_author a b = (author a < author b)"
| "field_lt by_publicationYear a b = (publicationYear a < publicationYear b)"
| "field_lt by_averageRating a b = (averageRating a < averageRating b)"
| "field_lt by_createdAt a b = (createdAt a < createdAt b)"

text \<open>The comparison of a sort document: a list of fields, each with direction \<open>1\<close> or \<open>-1\<close>.\<close>

fun sort_le :: "(sort_field \<times> int) list \<Rightarrow> book \<Rightarrow> book \<Rightarrow> bool" where
  "sort_le [] a b = True"
| "sort_le ((f, dir) # fs) a b =
     (if dir = -1
      then field_lt f b a \<or> (\<not> field_lt f a b \<and> sort_le fs a b)
      else field_lt f a b \<or> (\<not> field_lt f b a \<and> sort_le fs a b))"

text \<open>\<open>parseInt(v) || d\<close> on a numeric parameter: absent (\<open>NaN\<close>) and \<open>0\<close> give the default.\<close>

definition or_default :: "int option \<Rightarrow> int \<Rightarrow> int" where
  "or_default v d = (case v of None \<Rightarrow> d | Some n \<Rightarrow> if n = 0 then d else n)"

definition Math_ceil :: "rat \<Rightarrow> int" where
  "Math_ceil x = \<lceil>x\<rceil>"

section \<open>Listing books: \<open>GET /api/books\<close>\<close>

text \<open>
  The request query. A numeric parameter is the number it parses to and a parameter with
  an enumerated set of values is one of them: values the schema rejects for their type are
  not represented. The keys \<open>query\<close>, \<open>minYear\<close> and \<open>maxYear\<close> of the schema, which
  \<open>getAllBooks\<close> never reads, are left out.
\<close>

record list_query =
  q_search :: "string option"
  q_genre :: "string option"
  q_availability :: "status option"
  q_author :: "string option"
  q_yearFrom :: "int option"
  q_yearTo :: "int option"
  q_minRating :: "rat option"
  q_sortBy :: "sort_field option"
  q_sortOrder :: "sort_order option"
  q_page :: "int option"
  q_limit :: "int option"

record pagination =
  currentPage :: int
  totalPages :: int
  totalBooks :: int
  hasNextPage :: bool
  hasPrevPage :: bool
  limit :: int

record list_response =
  books :: "book list"
  pagination :: pagination
  filters_sortBy :: sort_field
  filters_sortOrder :: sort_order

text \<open>
  Strings are taken to be ASCII: \<open>trim\<close> strips the ASCII white space, and the other
  Unicode spaces that \<open>String.prototype.trim\<close> strips are not represented.
\<close>

definition is_space :: "char \<Rightarrow> bool" where
  "is_space c = (c \<in> set [CHR '' '', CHR 0x09, CHR 0x0A, CHR 0x0B, CHR 0x0C, CHR 0x0D])"

definition trim :: "string \<Rightarrow> string" where
  "trim s = rev (dropWhile is_space (rev (dropWhile is_space s)))"

text \<open>
  \<open>validateQuery(schemas.search)\<close>: the fields that fail, or the query that replaces
  \<open>req.query\<close>: trimmed, with the schema's defaults, and without the keys the schema does
  not know (\<open>search\<close>, \<open>yearFrom\<close>, \<open>yearTo\<close>; \<open>stripUnknown\<close>).
\<close>

datatype reject = Query_validation_failed "string list"

definition validateQuery_search :: "list_query \<Rightarrow> reject + list_query" where
  "validateQuery_search q =
     (let errors =
            (case q_genre q of Some g \<Rightarrow> if g = [] then [''genre''] else [] | None \<Rightarrow> []) @
            (case q_author q of
               Some a \<Rightarrow> if trim a = [] \<or> length (trim a) > 100 then [''author''] else []
             | None \<Rightarrow> []) @
            (case q_minRating q of
               Some r \<Rightarrow> if r < 0 \<or> r > 5 then [''minRating''] else []
             | None \<Rightarrow> []) @
            (case q_page q of Some p \<Rightarrow> if p < 1 then [''page''] else [] | None \<Rightarrow> []) @
            (case q_limit q of
               Some l \<Rightarrow> if l < 1 \<or> l > 100 then [''limit''] else []
             | None \<Rightarrow> [])
      in if errors \<noteq> [] then Inl (Query_validation_failed errors)
         else Inr (q\<lparr>q_search := None, q_yearFrom := None, q_yearTo := None,
                     q_author := map_option trim (q_author q),
                     q_sortBy := Some (case q_sortBy q of None \<Rightarrow> by_title | Some f \<Rightarrow> f),
                     q_sortOrder := Some (case q_sortOrder q of None \<Rightarrow> asc | Some d \<Rightarrow> d),
                     q_page := Some (case q_page q of None \<Rightarrow> 1 | Some p \<Rightarrow> p),
                     q_limit := Some (case q_limit q of None \<Rightarrow> 10 | Some l \<Rightarrow> l)\<rparr>))"

text \<open>
  The filter document of \<open>getAllBooks\<close>. \<open>rx p t\<close> is the store's case-insensitive
  \<open>$regex\<close> match of pattern \<open>p\<close> in text \<open>t\<close>; a missing field matches no pattern and
  no range. An empty string and the number \<open>0\<close> are falsy and add no condition; a year
  bound that is present is a non-empty string and adds one.
\<close>

definition matches :: "(string \<Rightarrow> string \<Rightarrow> bool) \<Rightarrow> list_query \<Rightarrow> book \<Rightarrow> bool" where
  "matches rx q b =
     ((case q_search q of
         None \<Rightarrow> True
       | Some s \<Rightarrow> s = [] \<or> rx s (title b) \<or> rx s (author b) \<or>
                  (case description b of None \<Rightarrow> False | Some d \<Rightarrow> rx s d)) \<and>
      (case q_genre q of
         None \<Rightarrow> True
       | Some g \<Rightarrow> g = [] \<or> g = ''All'' \<or> genre b = g) \<and>
      (case q_availability q of
         None \<Rightarrow> True
       | Some st \<Rightarrow> status (availability b) = st) \<and>
      (case q_author q of
         None \<Rightarrow> True
       | Some a \<Rightarrow> a = [] \<or> rx a (author b)) \<and>
      (case q_yearFrom q of
         None \<Rightarrow> True
       | Some y \<Rightarrow> (case publicationYear b of None \<Rightarrow> False | Some v \<Rightarrow> y \<le> v)) \<and>
      (case q_yearTo q of
         None \<Rightarrow> True
       | Some y \<Rightarrow> (case publicationYear b of None \<Rightarrow> False | Some v \<Rightarrow> v \<le> y)) \<and>
      (case q_minRating q of
         None \<Rightarrow> True
       | Some r \<Rightarrow> r = 0 \<or> r \<le> averageRating b))"

definition sort_of :: "list_query \<Rightarrow> (sort_field \<times> int) list" where
  "sort_of q =
     (case q_sortBy q of
        Some f \<Rightarrow> [(f, if q_sortOrder q = Some desc then -1 else 1)]
      | None \<Rightarrow> [(by_createdAt, -1)])"

definition getAllBooks ::
  "(string \<Rightarrow> string \<Rightarrow> bool) \<Rightarrow> list_query \<Rightarrow> book list \<Rightarrow> error + list_response" where
  "getAllBooks rx q db =
     (let page = or_default (q_page q) 1;
          lim = or_default (q_limit q) 10;
          skip = (page - 1) * lim
      in if skip < 0 then Inl (MongoError ''Skip value must be non-negative'')
         else
           (let found = filter (matches rx q) db;
                bs = limit_docs lim (drop (nat skip) (sort_by (sort_le (sort_of q)) found));
                count = int (length found);
                pages = Math_ceil (of_int count / of_int lim)
            in Inr \<lparr>books = bs,
                    pagination = \<lparr>currentPage = page, totalPages = pages, totalBooks = count,
                                  hasNextPage = (page < pages), hasPrevPage = (page > 1),
                                  limit = lim\<rparr>,
                    filters_sortBy = (case q_sortBy q of None \<Rightarrow> by_createdAt | Some f \<Rightarrow> f),
                    filters_sortOrder = (case q_sortOrder q of None \<Rightarrow> desc | Some d \<Rightarrow> d)\<rparr>))"

text \<open>The route: \<open>router.route('/').get(validateQuery(schemas.search), getAllBooks)\<close>.\<close>

definition list_route ::
  "(string \<Rightarrow> string \<Rightarrow> bool) \<Rightarrow> list_query \<Rightarrow> book list \<Rightarrow> reject + error + list_response" where
  "list_route rx q db =
     (case validateQuery_search q of
        Inl r \<Rightarrow> Inl r
      | Inr q' \<Rightarrow> Inr (getAllBooks rx q' db))"

section \<open>Books of a genre: \<open>GET /api/books/genre/:genre\<close>\<close>

text \<open>The route has no validator: \<open>page\<close> and \<open>limit\<close> are whatever \<open>parseInt\<close> gives.\<close>

record genre_response =
  gr_books :: "book list"
  gr_genre :: string
  gr_pagination :: pagination

definition getBooksByGenre ::
  "string \<Rightarrow> int option \<Rightarrow> int option \<Rightarrow> book list \<Rightarrow> error + genre_response" where
  "getBooksByGenre g qpage qlimit db =
     (let page = or_default qpage 1;
          lim = or_default qlimit 10;
          skip = (page - 1) * lim
      in if skip < 0 then Inl (MongoError ''Skip value must be non-negative'')
         else
           (let bs = limit_docs lim (drop (nat skip)
                       (sort_by (sort_le [(by_averageRating, -1), (by_createdAt, -1)])
                          (filter (\<lambda>b. genre b = g) db)));
                count = int (length (filter (\<lambda>b. genre b = g) db))
            in if length bs = 0
               then Inl (AppError (''No books found in '' @ g @ '' genre'') 404)
               else Inr \<lparr>gr_books = bs, gr_genre = g,
                         gr_pagination =
                           \<lparr>currentPage = page,
                            totalPages = Math_ceil (of_int count / of_int lim),
                            totalBooks = count,
                            hasNextPage = (page < Math_ceil (of_int count / of_int lim)),
                            hasPrevPage = (page > 1),
                            limit = lim\<rparr>\<rparr>))"

section \<open>Statistics: \<open>GET /api/books/stats\<close>\<close>

text \<open>
  \<open>$group\<close> yields one document for each distinct key, here in the order in which the keys
  first occur; \<open>$avg\<close> is the exact mean.
\<close>

definition group_ids :: "'k list \<Rightarrow> 'k list" where
  "group_ids ks = rev (remdups (rev ks))"

definition avg :: "rat list \<Rightarrow> rat" where
  "avg xs = sum_list xs / of_nat (length xs)"

record overview =
  ov_totalBooks :: int
  ov_availableBooks :: int
  ov_borrowedBooks :: int
  ov_averageRating :: rat
  ov_totalReviews :: int

record genre_stat =
  gs_id :: string
  gs_count :: int
  gs_averageRating :: rat

record year_stat =
  ys_id :: int
  ys_count :: int

record stats_response =
  st_overview :: overview
  genreDistribution :: "genre_stat list"
  recentPublications :: "year_stat list"

definition stats :: "book list \<Rightarrow> overview list" where
  "stats db =
     (if db = [] then []
      else [\<lparr>ov_totalBooks = int (length db),
             ov_availableBooks = int (length (filter (\<lambda>b. status (availability b) = Available) db)),
             ov_borrowedBooks = int (length (filter (\<lambda>b. status (availability b) = Borrowed) db)),
             ov_averageRating = avg (map averageRating db),
             ov_totalReviews = sum_list (map totalReviews db)\<rparr>])"

definition genreStats :: "book list \<Rightarrow> genre_stat list" where
  "genreStats db =
     sort_by (\<lambda>x y. gs_count x \<ge> gs_count y)
       (map (\<lambda>g. \<lparr>gs_id = g,
                   gs_count = int (length (filter (\<lambda>b. genre b = g) db)),
                   gs_averageRating = avg (map averageRating (filter (\<lambda>b. genre b = g) db))\<rparr>)
          (group_ids (map genre db)))"

definition yearStats :: "book list \<Rightarrow> year_stat list" where
  "yearStats db =
     take 10
       (sort_by (\<lambda>x y. ys_id x \<ge> ys_id y)
          (map (\<lambda>y. \<lparr>ys_id = y,
                      ys_count = int (length (filter (\<lambda>b. publicationYear b = Some y) db))\<rparr>)
             (group_ids (List.map_filter publicationYear db))))"

definition getBookStats :: "book list \<Rightarrow> stats_response" where
  "getBookStats db =
     \<lparr>st_overview =
        (case stats db of
           ov # rest \<Rightarrow> ov
         | [] \<Rightarrow> \<lparr>ov_totalBooks = 0, ov_availableBooks = 0, ov_borrowedBooks = 0,
                  ov_averageRating = 0, ov_totalReviews = 0\<rparr>),
      genreDistribution = genreStats db,
      recentPublications = yearStats db\<rparr>"

section \<open>Similar books: \<open>GET /api/ai/similar/:id\<close> (aiController.js)\<close>

text \<open>
  The ids are well-formed object ids (the route validates the parameter). The returned
  documents stand for their projections, which keep \<open>_id\<close>, \<open>genre\<close>, \<open>author\<close>,
  \<open>tags\<close> and \<open>averageRating\<close>.
\<close>

record reference_info =
  ref_id :: string
  ref_title :: string
  ref_author :: string
  ref_genre :: string

record similar_response =
  referenceBook :: reference_info
  similarBooks :: "book list"
  similar_count :: int

definition getSimilarBooks ::
  "string \<Rightarrow> int option \<Rightarrow> book list \<Rightarrow> error + similar_response" where
  "getSimilarBooks i qlimit db =
     (let lim = or_default qlimit 5
      in case findById i db of
           None \<Rightarrow> Inl (AppError ''Reference book not found'' 404)
         | Some reference \<Rightarrow>
             (let similar =
                    limit_docs lim
                      (sort_by (sort_le [(by_averageRating, -1)])
                         (filter (\<lambda>b. doc_id b \<noteq> i \<and>
                                    (genre b = genre reference \<or>
                                     author b = author reference \<or>
                                     (\<exists>t\<in>set (tags b). t \<in> set (tags reference)))) db))
              in Inr \<lparr>referenceBook =
                        \<lparr>ref_id = doc_id reference, ref_title = title reference,
                         ref_author = author reference, ref_genre = genre reference\<rparr>,
                      similarBooks = similar,
                      similar_count = int (length similar)\<rparr>))"

section \<open>Sequences of requests and the words of the specification\<close>

text \<open>
  A sequence of borrow and return calls on one document, each at its own time. A call
  that throws leaves the document as it was; the result counts the borrows and the
  returns that succeeded.
\<close>

datatype op = Borrow borrowerInfo | Return string

fun apply_op :: "int \<Rightarrow> op \<Rightarrow> book \<Rightarrow> error + book" where
  "apply_op now (Borrow info) b = borrowBook now info b"
| "apply_op now (Return e) b = returnBook now e b"

fun run_ops :: "(int \<times> op) list \<Rightarrow> book \<Rightarrow> book \<times> nat \<times> nat" where
  "run_ops [] b = (b, 0, 0)"
| "run_ops ((now, x) # xs) b =
     (case apply_op now x b of
        Inl e \<Rightarrow> run_ops xs b
      | Inr b' \<Rightarrow>
          (case run_ops xs b' of
             (c, n, m) \<Rightarrow>
               (case x of Borrow info \<Rightarrow> (c, Suc n, m) | Return e \<Rightarrow> (c, n, Suc m))))"

text \<open>The closed form of the specification: \<open>initialCopies - N + M\<close> clamped to \<open>[0, totalCopies]\<close>.\<close>

definition clamped_count :: "int \<Rightarrow> int \<Rightarrow> nat \<Rightarrow> nat \<Rightarrow> int" where
  "clamped_count totalCopies0 initialCopies n m =
     max 0 (min totalCopies0 (initialCopies - int n + int m))"

text \<open>
  The ledger accounts for the copies: no negative count, and the copies on the shelf and
  those lent out are not more than the book has.
\<close>

definition ledger_ok :: "book \<Rightarrow> bool" where
  "ledger_ok b \<longleftrightarrow>
     0 \<le> availableCopies (availability b) \<and>
     availableCopies (availability b) + int (length (borrowedBy (availability b)))
       \<le> totalCopies (availability b)"

text \<open>A sequence of review additions, each at its own time.\<close>

fun add_reviews :: "(int \<times> reviewData) list \<Rightarrow> book \<Rightarrow> book" where
  "add_reviews [] b = b"
| "add_reviews ((now, rd) # rs) b = add_reviews rs (addReview now rd b)"

text \<open>
  The mean of the ratings, and what it is for \<open>r\<close> to be \<open>x\<close> rounded to one decimal: a
  multiple of one tenth at most half a tenth away.
\<close>

definition mean :: "int list \<Rightarrow> rat" where
  "mean xs = of_int (sum_list xs) / of_nat (length xs)"

definition rounded_to_one_decimal :: "rat \<Rightarrow> rat \<Rightarrow> bool" where
  "rounded_to_one_decimal r x \<longleftrightarrow> of_int \<lfloor>r * 10\<rfloor> = r * 10 \<and> \<bar>r - x\<bar> \<le> 1 / 20"

text \<open>
  The review that \<open>addReview\<close> appends for the data given at a time, and the aggregate
  that the hook derives from the reviews of a document.
\<close>

definition new_review :: "int \<times> reviewData \<Rightarrow> review" where
  "new_review p = \<lparr>rating = rd_rating (snd p), comment = rd_comment (snd p),
      reviewerName = rd_reviewerName (snd p), reviewDate = fst p\<rparr>"

definition aggregate_ok :: "book \<Rightarrow> bool" where
  "aggregate_ok b \<longleftrightarrow>
     totalReviews b = int (length (reviews b)) \<and>
     averageRating b =
       (if reviews b = [] then 0
        else of_int (Math_round (mean (map rating (reviews b)) * 10)) / 10)"

text \<open>
  The numeric ranges of the schema: the \<open>min\<close> and \<open>max\<close> validators of the copy
  counts, of the ratings and of the aggregate. Mongoose checks them before it saves, so a
  stored document is within them, and so is the document that a return leaves.
\<close>

definition within_schema :: "book \<Rightarrow> bool" where
  "within_schema b \<longleftrightarrow>
     0 \<le> totalCopies (availability b) \<and> 0 \<le> availableCopies (availability b) \<and>
     0 \<le> averageRating b \<and> averageRating b \<le> 5 \<and> 0 \<le> totalReviews b \<and>
     list_all (\<lambda>r. 1 \<le> rating r \<and> rating r \<le> 5) (reviews b)"

text \<open>
  The handlers answer what they do not find (a book, a reference book, the books of a
  genre) with an \<open>AppError\<close> of status 404.
\<close>

definition not_found_error :: "error \<Rightarrow> bool" where
  "not_found_error e = (case e of AppError m c \<Rightarrow> c = 404 | Error m \<Rightarrow> False | MongoError m \<Rightarrow> False)"

text \<open>
  The status follows the copy count: \<open>Borrowed\<close> exactly when no copy of a book that has
  copies is available.
\<close>

definition status_tracks_copies :: "book \<Rightarrow> bool" where
  "status_tracks_copies b \<longleftrightarrow>
     (status (availability b) = Borrowed) =
     (availableCopies (availability b) = 0 \<and> totalCopies (availability b) > 0)"

text \<open>
  The number of books of a publication year, and what it is for a year breakdown to hold
  the top years by count: no year left out has more books than a year it lists.
\<close>

definition year_count :: "book list \<Rightarrow> int \<Rightarrow> int" where
  "year_count db y = int (length (filter (\<lambda>b. publicationYear b = Some y) db))"

definition top_years_by_count :: "book list \<Rightarrow> year_stat list \<Rightarrow> bool" where
  "top_years_by_count db ys \<longleftrightarrow>
     list_all (\<lambda>y. y \<in> ys_id ` set ys \<or>
                  list_all (\<lambda>s. year_count db y \<le> ys_count s) ys)
       (List.map_filter publicationYear db)"

section \<open>Example documents\<close>

text \<open>A new document with the defaults of the schema.\<close>

definition new_book :: "string \<Rightarrow> string \<Rightarrow> string \<Rightarrow> string \<Rightarrow> int \<Rightarrow> book" where
  "new_book i t a g now =
     \<lparr>doc_id = i, title = t, author = a, genre = g, publicationYear = None,
      description = None,
      availability = \<lparr>status = Available, totalCopies = 1, availableCopies = 1, borrowedBy = []\<rparr>,
      reviews = [], averageRating = 0, totalReviews = 0, tags = [],
      createdAt = now, updatedAt = now\<rparr>"

definition borrower :: "string \<Rightarrow> borrowerInfo" where
  "borrower e = \<lparr>bi_name = ''Reader'', bi_email = e, bi_dueDate = None\<rparr>"

definition with_copies :: "status \<Rightarrow> int \<Rightarrow> int \<Rightarrow> string list \<Rightarrow> book \<Rightarrow> book" where
  "with_copies st copies available emails b =
     b\<lparr>availability :=
         \<lparr>status = st, totalCopies = copies, availableCopies = available,
          borrowedBy = map (\<lambda>e. \<lparr>name = ''Reader'', email = e, borrowDate = 0, dueDate = 1\<rparr>) emails\<rparr>\<rparr>"

text \<open>
  A request without query parameters, \<open>n\<close> books of one genre created one after the other,
  and two books of which the one created first has the smaller title.
\<close>

definition no_params :: list_query where
  "no_params =
     \<lparr>q_search = None, q_genre = None, q_availability = None, q_author = None,
      q_yearFrom = None, q_yearTo = None, q_minRating = None, q_sortBy = None,
      q_sortOrder = None, q_page = None, q_limit = None\<rparr>"

definition numbered_books :: "string \<Rightarrow> nat \<Rightarrow> book list" where
  "numbered_books g n =
     map (\<lambda>k. new_book (replicate (Suc k) (CHR ''x'')) (replicate (Suc k) (CHR ''t'')) ''A'' g (int k))
       [0..<n]"

definition two_books :: "book list" where
  "two_books = [new_book ''b1'' ''Alpha'' ''A'' ''Fiction'' 1, new_book ''b2'' ''Beta'' ''B'' ''Fiction'' 2]"

text \<open>
  Twelve books of eleven publication years, two of them of the oldest year; and a shelf of
  five books with genres, authors, tags and ratings.
\<close>

definition year_books :: "book list" where
  "year_books =
     map (\<lambda>(i, y). (new_book i ''T'' ''A'' ''Fiction'' 0)\<lparr>publicationYear := Some y\<rparr>)
       [(''a'', 2000), (''b'', 2000), (''c'', 2001), (''d'', 2002), (''e'', 2003), (''f'', 2004),
        (''g'', 2005), (''h'', 2006), (''i'', 2007), (''j'', 2008), (''k'', 2009), (''l'', 2010)]"

definition shelf :: "book list" where
  "shelf =
     [(new_book ''r'' ''Dune'' ''Herbert'' ''Sci-Fi'' 1)\<lparr>tags := [''desert''], averageRating := 5\<rparr>,
      (new_book ''b1'' ''Foundation'' ''Asimov'' ''Sci-Fi'' 2)\<lparr>averageRating := 3\<rparr>,
      (new_book ''b2'' ''Soul Catcher'' ''Herbert'' ''Fiction'' 3)\<lparr>averageRating := 9 / 2\<rparr>,
      (new_book ''b3'' ''Sahara'' ''Palin'' ''Other'' 4)\<lparr>tags := [''travel'', ''desert''], averageRating := 4\<rparr>,
      (new_book ''b4'' ''Emma'' ''Austen'' ''Romance'' 5)\<lparr>tags := [''classic''], averageRating := 5,
         publicationYear := Some 1815\<rparr>]"

section \<open>Copies, ledger and status under borrow and return\<close>

lemma availability_pre_save:
  "availability (pre_save b) =
     (if availableCopies (availability b) > totalCopies (availability b)
      then (availability b)\<lparr>availableCopies := totalCopies (availability b)\<rparr>
      else availability b)"
  by (simp add: pre_save_def Let_def)

lemma availability_save:
  "availability (save now b) =
     (if availableCopies (availability b) > totalCopies (availability b)
      then (availability b)\<lparr>availableCopies := totalCopies (availability b)\<rparr>
      else availability b)"
  by (simp add: save_def availability_pre_save)

lemma borrowBook_Inr:
  assumes "borrowBook now info b = Inr b'"
  shows "0 < availableCopies (availability b)"
    and "availableCopies (availability b') =
           min (availableCopies (availability b) - 1) (totalCopies (availability b))"
    and "totalCopies (availability b') = totalCopies (availability b)"
    and "borrowedBy (availability b') = borrowedBy (availability b) @
           [\<lparr>name = bi_name info, email = bi_email info, borrowDate = now,
             dueDate = (case bi_dueDate info of Some d \<Rightarrow> d
                        | None \<Rightarrow> now + 14 * 24 * 60 * 60 * 1000)\<rparr>]"
    and "status (availability b') =
           (if availableCopies (availability b) - 1 = 0 then Borrowed
            else status (availability b))"
  using assms
  by (auto simp: borrowBook_def Let_def availability_save split: if_splits)

lemma findIndex_None: "findIndex p xs = None \<longleftrightarrow> (\<forall>x\<in>set xs. \<not> p x)"
  by (induction xs) (auto split: option.splits)

lemma findIndex_Some:
  "findIndex p xs = Some i \<Longrightarrow>
     i < length xs \<and> p (xs ! i) \<and> (\<forall>x\<in>set (take i xs). \<not> p x)"
  by (induction xs arbitrary: i) (auto split: option.splits if_splits)

lemma findIndex_first:
  "p x \<Longrightarrow> \<forall>y\<in>set xs. \<not> p y \<Longrightarrow> findIndex p (xs @ x # ys) = Some (length xs)"
  by (induction xs) auto

lemma splice1_first: "splice1 (length xs) (xs @ x # ys) = xs @ ys"
  by (simp add: splice1_def)

lemma length_splice1: "i < length xs \<Longrightarrow> length (splice1 i xs) = length xs - 1"
  by (simp add: splice1_def)

lemma returnBook_Inr:
  assumes "returnBook now e b = Inr b'"
  shows "\<exists>i. findIndex (\<lambda>borrow. email borrow = e) (borrowedBy (availability b)) = Some i \<and>
              borrowedBy (availability b') = splice1 i (borrowedBy (availability b))"
    and "availableCopies (availability b') =
           min (availableCopies (availability b) + 1) (totalCopies (availability b))"
    and "totalCopies (availability b') = totalCopies (availability b)"
    and "status (availability b') =
           (if availableCopies (availability b) + 1 > 0 then Available
            else status (availability b))"
  using assms
  by (auto simp: returnBook_def Let_def availability_save split: if_splits option.splits)

lemma run_ops_exact:
  "ledger_ok b \<Longrightarrow> run_ops ops b = (b', n, m) \<Longrightarrow>
     ledger_ok b' \<and> totalCopies (availability b') = totalCopies (availability b) \<and>
     availableCopies (availability b') = availableCopies (availability b) - int n + int m"
proof (induction ops arbitrary: b n m)
  case Nil
  then show ?case by simp
next
  case (Cons x ops)
  obtain now y where x: "x = (now, y)" by (cases x)
  show ?case
  proof (cases "apply_op now y b")
    case (Inl e)
    with Cons x show ?thesis by simp
  next
    case (Inr b1)
    obtain c n1 m1 where r: "run_ops ops b1 = (c, n1, m1)" by (cases "run_ops ops b1")
    show ?thesis
    proof (cases y)
      case (Borrow info)
      with Inr have bb: "borrowBook now info b = Inr b1" by simp
      have ok1: "ledger_ok b1"
        using Cons.prems(1) borrowBook_Inr[OF bb] by (simp add: ledger_ok_def)
      have av: "availableCopies (availability b1) = availableCopies (availability b) - 1"
        using Cons.prems(1) borrowBook_Inr[OF bb] by (simp add: ledger_ok_def)
      from Cons.prems(2) x Inr r Borrow have e: "c = b'" "n = Suc n1" "m = m1" by simp_all
      with r have "run_ops ops b1 = (b', n1, m1)" by simp
      from Cons.IH[OF ok1 this] e av borrowBook_Inr(3)[OF bb] show ?thesis by simp
    next
      case (Return e)
      with Inr have rb: "returnBook now e b = Inr b1" by simp
      from returnBook_Inr(1)[OF rb] obtain i where
        i: "findIndex (\<lambda>borrow. email borrow = e) (borrowedBy (availability b)) = Some i"
        and l: "borrowedBy (availability b1) = splice1 i (borrowedBy (availability b))" by blast
      from findIndex_Some[OF i] have il: "i < length (borrowedBy (availability b))" by simp
      have len: "int (length (borrowedBy (availability b1))) =
                   int (length (borrowedBy (availability b))) - 1"
        using il l by (simp add: length_splice1 of_nat_diff)
      have av: "availableCopies (availability b1) = availableCopies (availability b) + 1"
        using Cons.prems(1) returnBook_Inr(2)[OF rb] il by (simp add: ledger_ok_def)
      have ok1: "ledger_ok b1"
        using Cons.prems(1) av len returnBook_Inr(3)[OF rb] by (simp add: ledger_ok_def)
      from Cons.prems(2) x Inr r Return have e: "c = b'" "n = n1" "m = Suc m1" by simp_all
      with r have "run_ops ops b1 = (b', n1, m1)" by simp
      from Cons.IH[OF ok1 this] e av returnBook_Inr(3)[OF rb] show ?thesis by simp
    qed
  qed
qed

lemmas example_defs = new_book_def borrower_def with_copies_def
lemmas action_defs = borrowBook_def returnBook_def save_def pre_save_def Let_def splice1_def

text \<open>
  Claim C1, as the code has it. The hook clamps the count at every save, not once at the
  end. For a book whose ledger accounts for its copies (\<open>ledger_ok\<close>: no negative count,
  and available copies plus ledger entries are at most \<open>totalCopies\<close>; borrow and return
  keep this), after any sequence of calls of which \<open>n\<close> borrows and \<open>m\<close> returns succeed,
  \<open>availableCopies\<close> is exactly the initial count \<open>- n + m\<close>; it lies in
  \<open>[0, totalCopies]\<close>, so it is also the clamped closed form. In any state whatever a
  successful borrow leaves \<open>min (availableCopies - 1) totalCopies\<close> and a successful return
  \<open>min (availableCopies + 1) totalCopies\<close>.
\<close>

theorem copies_after_borrows_and_returns:
  "ledger_ok b \<Longrightarrow> run_ops ops b = (b', n, m) \<Longrightarrow>
     availableCopies (availability b') = availableCopies (availability b) - int n + int m \<and>
     availableCopies (availability b') =
       clamped_count (totalCopies (availability b)) (availableCopies (availability b)) n m \<and>
     0 \<le> availableCopies (availability b') \<and>
     availableCopies (availability b') \<le> totalCopies (availability b') \<and>
     totalCopies (availability b') = totalCopies (availability b) \<and>
     ledger_ok b' \<and>
     (\<forall>now info c c'. borrowBook now info c = Inr c' \<longrightarrow>
        availableCopies (availability c') =
          min (availableCopies (availability c) - 1) (totalCopies (availability c))) \<and>
     (\<forall>now e c c'. returnBook now e c = Inr c' \<longrightarrow>
        availableCopies (availability c') =
          min (availableCopies (availability c) + 1) (totalCopies (availability c)))"
proof -
  assume ok: "ledger_ok b" and run: "run_ops ops b = (b', n, m)"
  from run_ops_exact[OF ok run] have
    ok': "ledger_ok b'" and
    tot: "totalCopies (availability b') = totalCopies (availability b)" and
    av: "availableCopies (availability b') = availableCopies (availability b) - int n + int m"
    by simp_all
  from ok' have rng: "0 \<le> availableCopies (availability b')"
    "availableCopies (availability b') \<le> totalCopies (availability b')"
    by (simp_all add: ledger_ok_def)
  have cl: "availableCopies (availability b') =
       clamped_count (totalCopies (availability b)) (availableCopies (availability b)) n m"
    using rng tot av by (simp add: clamped_count_def)
  show ?thesis
    using ok' tot av rng cl borrowBook_Inr(2) returnBook_Inr(2) by blast
qed

text \<open>
  The scenario of the specification: two copies; \<open>a\<close> and \<open>b\<close> borrow, \<open>c\<close> is refused,
  \<open>a\<close> returns. Two borrows and one return succeed and one copy is available.
\<close>

theorem copies_two_borrows_one_return:
  "availableCopies (availability (fst (run_ops
       [(1, Borrow (borrower ''a@x.com'')), (2, Borrow (borrower ''b@x.com'')),
        (3, Borrow (borrower ''c@x.com'')), (4, Return ''a@x.com'')]
       (with_copies Available 2 2 [] (new_book ''b1'' ''T'' ''A'' ''Fiction'' 0))))) = 1 \<and>
   snd (run_ops
       [(1, Borrow (borrower ''a@x.com'')), (2, Borrow (borrower ''b@x.com'')),
        (3, Borrow (borrower ''c@x.com'')), (4, Return ''a@x.com'')]
       (with_copies Available 2 2 [] (new_book ''b1'' ''T'' ''A'' ''Fiction'' 0))) = (2, 1)"
proof -
  let ?b = "with_copies Available 2 2 [] (new_book ''b1'' ''T'' ''A'' ''Fiction'' 0)"
  let ?ops = "[(1, Borrow (borrower ''a@x.com'')), (2, Borrow (borrower ''b@x.com'')),
        (3, Borrow (borrower ''c@x.com'')), (4, Return ''a@x.com'')]"
  have ok: "ledger_ok ?b" by (simp add: ledger_ok_def example_defs)
  have cnt: "snd (run_ops ?ops ?b) = (2, 1)"
    by (simp add: example_defs action_defs)
  then have run: "run_ops ?ops ?b = (fst (run_ops ?ops ?b), 2, 1)"
    by (metis prod.collapse)
  from copies_after_borrows_and_returns[OF ok run] cnt show ?thesis
    by (simp add: example_defs)
qed

text \<open>
  The closed form with one clamp at the end fails where a return is clamped on the way:
  one copy, available, and one ledger entry. The return leaves the count at \<open>1\<close>, the
  borrow that follows takes it to \<open>0\<close>, and the closed form says \<open>1 - 1 + 1 = 1\<close>.
\<close>

theorem closed_form_fails_after_clamped_return:
  "snd (run_ops [(1, Return ''a@x.com''), (2, Borrow (borrower ''b@x.com''))]
         (with_copies Available 1 1 [''a@x.com''] (new_book ''b1'' ''T'' ''A'' ''Fiction'' 0))) = (1, 1) \<and>
   availableCopies (availability (fst (run_ops
         [(1, Return ''a@x.com''), (2, Borrow (borrower ''b@x.com''))]
         (with_copies Available 1 1 [''a@x.com''] (new_book ''b1'' ''T'' ''A'' ''Fiction'' 0))))) = 0 \<and>
   clamped_count 1 1 1 1 = 1"
  by (simp add: example_defs action_defs clamped_count_def)

section \<open>Borrow and return requests\<close>

lemma findById_Some:
  "findById i db = Some b \<Longrightarrow> b \<in> set db \<and> doc_id b = i"
  by (auto simp: findById_def find_Some_iff)

lemma doc_id_returnBook: "returnBook now e b = Inr b' \<Longrightarrow> doc_id b' = doc_id b"
  by (auto simp: returnBook_def save_def pre_save_def Let_def split: option.splits if_splits)

lemma findById_persist_same:
  "findById i db = Some b \<Longrightarrow> doc_id b' = i \<Longrightarrow> findById i (persist b' db) = Some b'"
  unfolding findById_def persist_def by (induction db) (auto split: if_splits)

lemma findById_persist_other:
  "j \<noteq> doc_id b' \<Longrightarrow> findById j (persist b' db) = findById j db"
  unfolding findById_def persist_def by (induction db) auto

lemma doc_ids_persist: "map doc_id (persist b' db) = map doc_id db"
  unfolding persist_def by (induction db) auto

text \<open>
  Claim C2. A borrow request on an existing book is refused with a conflict error (an
  \<open>AppError\<close> with status 400), and the collection is left as it was, in both cases: when
  no copy is available (\<open>availableCopies \<le> 0\<close>) the error is "No copies available for
  borrowing", and when a ledger entry exists for the email of the request the error is
  "You have already borrowed this book". The handler tests the copies first, so a
  duplicate borrower of a book without copies gets the first of the two errors.
\<close>

theorem borrow_request_refused:
  "findById i db = Some b \<Longrightarrow>
     (availableCopies (availability b) \<le> 0 \<longrightarrow>
        borrowBook_controller now i body db =
          (Inl (AppError ''No copies available for borrowing'' 400), db)) \<and>
     (bi_email body \<in> email ` set (borrowedBy (availability b)) \<longrightarrow>
        borrowBook_controller now i body db =
          (Inl (AppError (if availableCopies (availability b) \<le> 0
                          then ''No copies available for borrowing''
                          else ''You have already borrowed this book'') 400), db))"
proof (intro conjI impI)
  assume f: "findById i db = Some b" and "availableCopies (availability b) \<le> 0"
  then show "borrowBook_controller now i body db =
          (Inl (AppError ''No copies available for borrowing'' 400), db)"
    by (simp add: borrowBook_controller_def)
next
  assume f: "findById i db = Some b"
    and h: "bi_email body \<in> email ` set (borrowedBy (availability b))"
  then have "find (\<lambda>borrow. email borrow = bi_email body) (borrowedBy (availability b)) \<noteq> None"
    by (auto simp: find_None_iff)
  then obtain x where
    "find (\<lambda>borrow. email borrow = bi_email body) (borrowedBy (availability b)) = Some x"
    by blast
  with f show "borrowBook_controller now i body db =
          (Inl (AppError (if availableCopies (availability b) \<le> 0
                          then ''No copies available for borrowing''
                          else ''You have already borrowed this book'') 400), db)"
    by (simp add: borrowBook_controller_def)
qed

text \<open>
  A third borrower of a book with no copy left, a second request by a borrower of a book
  that has a copy left, and a second request by the borrower of the only copy.
\<close>

theorem borrow_request_refused_thrice:
  "borrowBook_controller 5 ''b1'' (borrower ''c@x.com'')
     [with_copies Borrowed 2 0 [''a@x.com'', ''b@x.com''] (new_book ''b1'' ''T'' ''A'' ''Fiction'' 0)] =
     (Inl (AppError ''No copies available for borrowing'' 400),
      [with_copies Borrowed 2 0 [''a@x.com'', ''b@x.com''] (new_book ''b1'' ''T'' ''A'' ''Fiction'' 0)]) \<and>
   borrowBook_controller 5 ''b1'' (borrower ''a@x.com'')
     [with_copies Available 2 1 [''a@x.com''] (new_book ''b1'' ''T'' ''A'' ''Fiction'' 0)] =
     (Inl (AppError ''You have already borrowed this book'' 400),
      [with_copies Available 2 1 [''a@x.com''] (new_book ''b1'' ''T'' ''A'' ''Fiction'' 0)]) \<and>
   borrowBook_controller 5 ''b1'' (borrower ''a@x.com'')
     [with_copies Borrowed 1 0 [''a@x.com''] (new_book ''b1'' ''T'' ''A'' ''Fiction'' 0)] =
     (Inl (AppError ''No copies available for borrowing'' 400),
      [with_copies Borrowed 1 0 [''a@x.com''] (new_book ''b1'' ''T'' ''A'' ''Fiction'' 0)])"
proof -
  let ?b0 = "with_copies Borrowed 2 0 [''a@x.com'', ''b@x.com''] (new_book ''b1'' ''T'' ''A'' ''Fiction'' 0)"
  let ?b1 = "with_copies Available 2 1 [''a@x.com''] (new_book ''b1'' ''T'' ''A'' ''Fiction'' 0)"
  let ?b2 = "with_copies Borrowed 1 0 [''a@x.com''] (new_book ''b1'' ''T'' ''A'' ''Fiction'' 0)"
  have f0: "findById ''b1'' [?b0] = Some ?b0" by (simp add: findById_def example_defs)
  have f1: "findById ''b1'' [?b1] = Some ?b1" by (simp add: findById_def example_defs)
  have f2: "findById ''b1'' [?b2] = Some ?b2" by (simp add: findById_def example_defs)
  have a0: "availableCopies (availability ?b0) \<le> 0" by (simp add: example_defs)
  have a1: "bi_email (borrower ''a@x.com'') \<in> email ` set (borrowedBy (availability ?b1))"
    "\<not> availableCopies (availability ?b1) \<le> 0"
    by (simp_all add: example_defs)
  have a2: "bi_email (borrower ''a@x.com'') \<in> email ` set (borrowedBy (availability ?b2))"
    "availableCopies (availability ?b2) \<le> 0"
    by (simp_all add: example_defs)
  note t0 = borrow_request_refused[OF f0, where now = 5 and body = "borrower ''c@x.com''",
      THEN conjunct1, rule_format, OF a0]
  note t1 = borrow_request_refused[OF f1, where now = 5 and body = "borrower ''a@x.com''",
      THEN conjunct2, rule_format, OF a1(1)]
  note t2 = borrow_request_refused[OF f2, where now = 5 and body = "borrower ''a@x.com''",
      THEN conjunct2, rule_format, OF a2(1)]
  from t1 a1(2) have t1': "borrowBook_controller 5 ''b1'' (borrower ''a@x.com'') [?b1] =
     (Inl (AppError ''You have already borrowed this book'' 400), [?b1])"
    by (simp only: if_False)
  from t2 a2(2) have t2': "borrowBook_controller 5 ''b1'' (borrower ''a@x.com'') [?b2] =
     (Inl (AppError ''No copies available for borrowing'' 400), [?b2])"
    by (simp only: if_True)
  from t0 t1' t2' show ?thesis by (intro conjI)
qed

text \<open>
  Claim C3, as the code has it. A return request on an existing book with no ledger entry
  for the email fails and leaves the collection as it was; the error is the \<open>Error\<close> of
  the document method, "No borrow record found for this email", which the handler passes
  on as an \<open>AppError\<close> of status 400, not of the status 404 with which it answers a book
  that is not found. Otherwise, the stored document being within the ranges of the
  schema, the request succeeds: the first entry with that email leaves the ledger,
  \<open>availableCopies\<close> is incremented and clamped at \<open>totalCopies\<close>, the status is
  \<open>Available\<close>, and the collection then holds this document under the id of the book,
  the other documents being as they were.
\<close>

theorem return_request:
  "findById i db = Some b \<Longrightarrow>
     ((\<forall>x\<in>set (borrowedBy (availability b)). email x \<noteq> e) \<longrightarrow>
        returnBook_controller now i e db =
          (Inl (AppError ''No borrow record found for this email'' 400), db)) \<and>
     (\<forall>xs x ys.
        borrowedBy (availability b) = xs @ x # ys \<and> email x = e \<and>
        (\<forall>y\<in>set xs. email y \<noteq> e) \<and> within_schema b \<longrightarrow>
        (\<exists>b' db'. returnBook_controller now i e db = (Inr b', db') \<and>
              findById i db' = Some b' \<and>
              (\<forall>j. j \<noteq> i \<longrightarrow> findById j db' = findById j db) \<and>
              map doc_id db' = map doc_id db \<and>
              doc_id b' = i \<and>
              borrowedBy (availability b') = xs @ ys \<and>
              availableCopies (availability b') =
                min (availableCopies (availability b) + 1) (totalCopies (availability b)) \<and>
              totalCopies (availability b') = totalCopies (availability b) \<and>
              (0 < availableCopies (availability b') \<longrightarrow>
                 status (availability b') = Available) \<and>
              status (availability b') = Available))"
proof (intro conjI impI allI)
  assume f: "findById i db = Some b"
    and "\<forall>x\<in>set (borrowedBy (availability b)). email x \<noteq> e"
  then have "findIndex (\<lambda>borrow. email borrow = e) (borrowedBy (availability b)) = None"
    by (simp add: findIndex_None)
  with f show "returnBook_controller now i e db =
          (Inl (AppError ''No borrow record found for this email'' 400), db)"
    by (simp add: returnBook_controller_def returnBook_def)
next
  fix xs x ys
  assume f: "findById i db = Some b"
    and h: "borrowedBy (availability b) = xs @ x # ys \<and> email x = e \<and>
        (\<forall>y\<in>set xs. email y \<noteq> e) \<and> within_schema b"
  then have ix: "findIndex (\<lambda>borrow. email borrow = e) (borrowedBy (availability b)) =
      Some (length xs)"
    by (simp add: findIndex_first)
  then obtain b' where rb: "returnBook now e b = Inr b'"
    by (simp add: returnBook_def Let_def)
  from h have nn: "0 \<le> availableCopies (availability b)" by (simp add: within_schema_def)
  from returnBook_Inr(1)[OF rb] ix h have l: "borrowedBy (availability b') = xs @ ys"
    by (simp add: splice1_first)
  have c: "returnBook_controller now i e db = (Inr b', persist b' db)"
    using f rb by (simp add: returnBook_controller_def)
  have bi: "doc_id b = i" using findById_Some[OF f] by simp
  have id: "doc_id b' = i" using doc_id_returnBook[OF rb] bi by simp
  have s1: "findById i (persist b' db) = Some b'" using f id by (rule findById_persist_same)
  have s2: "\<forall>j. j \<noteq> i \<longrightarrow> findById j (persist b' db) = findById j db"
    using id by (simp add: findById_persist_other)
  have s3: "map doc_id (persist b' db) = map doc_id db" by (rule doc_ids_persist)
  have st: "status (availability b') = Available"
    using returnBook_Inr(4)[OF rb] nn by simp
  then have p: "0 < availableCopies (availability b') \<longrightarrow> status (availability b') = Available"
    by simp
  note av = returnBook_Inr(2)[OF rb]
  note tc = returnBook_Inr(3)[OF rb]
  show "\<exists>b' db'. returnBook_controller now i e db = (Inr b', db') \<and>
              findById i db' = Some b' \<and>
              (\<forall>j. j \<noteq> i \<longrightarrow> findById j db' = findById j db) \<and>
              map doc_id db' = map doc_id db \<and>
              doc_id b' = i \<and>
              borrowedBy (availability b') = xs @ ys \<and>
              availableCopies (availability b') =
                min (availableCopies (availability b) + 1) (totalCopies (availability b)) \<and>
              totalCopies (availability b') = totalCopies (availability b) \<and>
              (0 < availableCopies (availability b') \<longrightarrow>
                 status (availability b') = Available) \<and>
              status (availability b') = Available"
    by (intro exI[of _ b'] exI[of _ "persist b' db"] conjI) (fact c s1 s2 s3 id l av tc p st)+
qed

text \<open>
  An email that is not in the ledger, and an email that is there twice, in a collection of
  two books: the first of the two entries is removed, the collection holds the book with
  the shorter ledger, and the other book is as it was.
\<close>

theorem return_request_examples:
  "returnBook_controller 7 ''b1'' ''z@x.com''
     [with_copies Borrowed 1 0 [''a@x.com''] (new_book ''b1'' ''T'' ''A'' ''Fiction'' 0)] =
     (Inl (AppError ''No borrow record found for this email'' 400),
      [with_copies Borrowed 1 0 [''a@x.com''] (new_book ''b1'' ''T'' ''A'' ''Fiction'' 0)]) \<and>
   map_sum id (\<lambda>b. (map email (borrowedBy (availability b)),
                     availableCopies (availability b), status (availability b)))
     (fst (returnBook_controller 7 ''b1'' ''a@x.com''
       [new_book ''b0'' ''S'' ''B'' ''Poetry'' 0,
        with_copies Borrowed 3 0 [''b@x.com'', ''a@x.com'', ''a@x.com'']
          (new_book ''b1'' ''T'' ''A'' ''Fiction'' 0)])) =
     Inr ([''b@x.com'', ''a@x.com''], 1, Available) \<and>
   map_option (\<lambda>b. (map email (borrowedBy (availability b)),
                     availableCopies (availability b), status (availability b)))
     (findById ''b1'' (snd (returnBook_controller 7 ''b1'' ''a@x.com''
       [new_book ''b0'' ''S'' ''B'' ''Poetry'' 0,
        with_copies Borrowed 3 0 [''b@x.com'', ''a@x.com'', ''a@x.com'']
          (new_book ''b1'' ''T'' ''A'' ''Fiction'' 0)]))) =
     Some ([''b@x.com'', ''a@x.com''], 1, Available) \<and>
   findById ''b0'' (snd (returnBook_controller 7 ''b1'' ''a@x.com''
       [new_book ''b0'' ''S'' ''B'' ''Poetry'' 0,
        with_copies Borrowed 3 0 [''b@x.com'', ''a@x.com'', ''a@x.com'']
          (new_book ''b1'' ''T'' ''A'' ''Fiction'' 0)])) =
     Some (new_book ''b0'' ''S'' ''B'' ''Poetry'' 0)"
proof -
  let ?b0 = "with_copies Borrowed 1 0 [''a@x.com''] (new_book ''b1'' ''T'' ''A'' ''Fiction'' 0)"
  let ?b1 = "with_copies Borrowed 3 0 [''b@x.com'', ''a@x.com'', ''a@x.com'']
          (new_book ''b1'' ''T'' ''A'' ''Fiction'' 0)"
  let ?o = "new_book ''b0'' ''S'' ''B'' ''Poetry'' 0"
  let ?db = "[?o, ?b1]"
  let ?e = "\<lambda>m. \<lparr>name = ''Reader'', email = m, borrowDate = 0, dueDate = 1\<rparr>"
  have f0: "findById ''b1'' [?b0] = Some ?b0" by (simp add: findById_def example_defs)
  have f1: "findById ''b1'' ?db = Some ?b1" by (simp add: findById_def example_defs)
  have fo: "findById ''b0'' ?db = Some ?o" by (simp add: findById_def example_defs)
  have n0: "\<forall>x\<in>set (borrowedBy (availability ?b0)). email x \<noteq> ''z@x.com''"
    by (simp add: example_defs)
  have s1: "borrowedBy (availability ?b1) = [?e ''b@x.com''] @ ?e ''a@x.com'' # [?e ''a@x.com''] \<and>
        email (?e ''a@x.com'') = ''a@x.com'' \<and>
        (\<forall>y\<in>set [?e ''b@x.com'']. email y \<noteq> ''a@x.com'') \<and> within_schema ?b1"
    by (simp add: example_defs within_schema_def)
  have t1: "availableCopies (availability ?b1) = 0" "totalCopies (availability ?b1) = 3"
    by (simp_all add: example_defs)
  note A = return_request[OF f0, where e = "''z@x.com''" and now = 7,
      THEN conjunct1, THEN mp, OF n0]
  note S = return_request[OF f1, where e = "''a@x.com''" and now = 7,
      THEN conjunct2, THEN spec, THEN spec, THEN spec, THEN mp, OF s1]
  from S obtain b' db' where
    r: "returnBook_controller 7 ''b1'' ''a@x.com'' ?db = (Inr b', db')" and
    st: "findById ''b1'' db' = Some b'" and
    ot: "\<forall>j. j \<noteq> ''b1'' \<longrightarrow> findById j db' = findById j ?db" and
    l: "borrowedBy (availability b') = [?e ''b@x.com''] @ [?e ''a@x.com'']" and
    av: "availableCopies (availability b') =
                min (availableCopies (availability ?b1) + 1) (totalCopies (availability ?b1))" and
    s: "status (availability b') = Available"
    by (elim exE conjE)
  from av t1 have av': "availableCopies (availability b') = 1" by simp
  have B: "map_sum id (\<lambda>b. (map email (borrowedBy (availability b)),
                     availableCopies (availability b), status (availability b)))
     (fst (returnBook_controller 7 ''b1'' ''a@x.com'' ?db)) =
     Inr ([''b@x.com'', ''a@x.com''], 1, Available)"
    by (simp add: r l av' s)
  have C: "map_option (\<lambda>b. (map email (borrowedBy (availability b)),
                     availableCopies (availability b), status (availability b)))
     (findById ''b1'' (snd (returnBook_controller 7 ''b1'' ''a@x.com'' ?db))) =
     Some ([''b@x.com'', ''a@x.com''], 1, Available)"
    by (simp add: r st l av' s)
  from ot have "findById ''b0'' db' = findById ''b0'' ?db" by simp
  with fo have D: "findById ''b0'' (snd (returnBook_controller 7 ''b1'' ''a@x.com'' ?db)) = Some ?o"
    by (simp add: r)
  from A B C D show ?thesis by (intro conjI)
qed

text \<open>
  The same handler answers a return by an email that is not in the ledger with status 400
  and a return of a book that is not in the collection with status 404.
\<close>

theorem return_miss_is_400_not_404:
  "fst (returnBook_controller 7 ''b1'' ''z@x.com''
     [with_copies Borrowed 1 0 [''a@x.com''] (new_book ''b1'' ''T'' ''A'' ''Fiction'' 0)]) =
     Inl (AppError ''No borrow record found for this email'' 400) \<and>
   \<not> not_found_error (AppError ''No borrow record found for this email'' 400) \<and>
   fst (returnBook_controller 7 ''b9'' ''z@x.com''
     [with_copies Borrowed 1 0 [''a@x.com''] (new_book ''b1'' ''T'' ''A'' ''Fiction'' 0)]) =
     Inl (AppError ''Book not found'' 404) \<and>
   not_found_error (AppError ''Book not found'' 404)"
  by (simp add: returnBook_controller_def returnBook_def findById_def example_defs
      not_found_error_def)

text \<open>
  Claim C5, as the code has it. A successful borrow sets the status to \<open>Borrowed\<close> when
  the decremented count is \<open>0\<close> and otherwise leaves it; a successful return sets it to
  \<open>Available\<close> when the incremented count is positive; neither looks at the status the
  book had, so \<open>Reserved\<close> and \<open>Maintenance\<close> are overwritten like any other. After a
  successful return of a book with a count of at least \<open>0\<close> the status is \<open>Available\<close>
  and \<open>Borrowed\<close> holds iff \<open>availableCopies = 0\<close> and \<open>totalCopies > 0\<close>; after a
  successful borrow that equivalence holds if it held before and the count did not
  exceed \<open>totalCopies\<close>.
\<close>

theorem status_after_borrow_and_return:
  "(borrowBook now info b = Inr b' \<longrightarrow>
      status (availability b') =
        (if availableCopies (availability b) - 1 = 0 then Borrowed else status (availability b))) \<and>
   (returnBook now e b = Inr b' \<longrightarrow>
      status (availability b') =
        (if 0 < availableCopies (availability b) + 1 then Available else status (availability b))) \<and>
   (returnBook now e b = Inr b' \<and> 0 \<le> availableCopies (availability b) \<longrightarrow>
      status (availability b') = Available \<and> status_tracks_copies b') \<and>
   (borrowBook now info b = Inr b' \<and> status_tracks_copies b \<and>
    availableCopies (availability b) \<le> totalCopies (availability b) \<longrightarrow>
      status_tracks_copies b' \<and>
      availableCopies (availability b') \<le> totalCopies (availability b'))"
proof (intro conjI impI)
  assume "borrowBook now info b = Inr b'"
  then show "status (availability b') =
        (if availableCopies (availability b) - 1 = 0 then Borrowed else status (availability b))"
    by (rule borrowBook_Inr(5))
next
  assume "returnBook now e b = Inr b'"
  then show "status (availability b') =
        (if 0 < availableCopies (availability b) + 1 then Available else status (availability b))"
    by (rule returnBook_Inr(4))
next
  assume h: "returnBook now e b = Inr b' \<and> 0 \<le> availableCopies (availability b)"
  then show "status (availability b') = Available"
    using returnBook_Inr(4)[of now e b b'] by simp
  from h show "status_tracks_copies b'"
    using returnBook_Inr(2,3,4)[of now e b b'] by (auto simp: status_tracks_copies_def)
next
  assume h: "borrowBook now info b = Inr b' \<and> status_tracks_copies b \<and>
    availableCopies (availability b) \<le> totalCopies (availability b)"
  then show "status_tracks_copies b'"
    using borrowBook_Inr(1,2,3,5)[of now info b b']
    by (auto simp: status_tracks_copies_def split: if_splits)
  from h show "availableCopies (availability b') \<le> totalCopies (availability b')"
    using borrowBook_Inr(2,3)[of now info b b'] by simp
qed

text \<open>Taking the last of two copies, and returning one of two borrowed copies.\<close>

theorem status_scenario:
  "map_sum id (\<lambda>b. (availableCopies (availability b), status (availability b)))
     (borrowBook 1 (borrower ''b@x.com'')
        (with_copies Available 2 1 [''a@x.com''] (new_book ''b1'' ''T'' ''A'' ''Fiction'' 0))) =
     Inr (0, Borrowed) \<and>
   map_sum id (\<lambda>b. (availableCopies (availability b), status (availability b)))
     (returnBook 2 ''a@x.com''
        (with_copies Borrowed 2 0 [''a@x.com'', ''b@x.com''] (new_book ''b1'' ''T'' ''A'' ''Fiction'' 0))) =
     Inr (1, Available)"
proof -
  let ?b0 = "with_copies Available 2 1 [''a@x.com''] (new_book ''b1'' ''T'' ''A'' ''Fiction'' 0)"
  let ?b1 = "with_copies Borrowed 2 0 [''a@x.com'', ''b@x.com''] (new_book ''b1'' ''T'' ''A'' ''Fiction'' 0)"
  obtain c0 where c0: "borrowBook 1 (borrower ''b@x.com'') ?b0 = Inr c0"
    by (simp add: example_defs borrowBook_def Let_def)
  obtain c1 where c1: "returnBook 2 ''a@x.com'' ?b1 = Inr c1"
    by (simp add: example_defs returnBook_def Let_def)
  have av0: "availableCopies (availability c0) = 0"
    using borrowBook_Inr(2)[OF c0] by (simp add: example_defs)
  have av1: "availableCopies (availability c1) = 1"
    using returnBook_Inr(2)[OF c1] by (simp add: example_defs)
  have s0: "status (availability c0) = Borrowed"
    using status_after_borrow_and_return[where now = 1 and info = "borrower ''b@x.com''" and b = ?b0 and b' = c0] c0
    by (simp add: example_defs)
  have s1: "status (availability c1) = Available"
    using status_after_borrow_and_return[where now = 2 and e = "''a@x.com''" and b = ?b1 and b' = c1] c1
    by (simp add: example_defs)
  from c0 c1 av0 av1 s0 s1 show ?thesis by simp
qed

text \<open>
  A book under maintenance is \<open>Borrowed\<close> after its only copy is lent, a reserved book is
  \<open>Available\<close> after a return, and a book stored as \<open>Borrowed\<close> with two copies on the
  shelf is still \<open>Borrowed\<close> after a borrow that leaves one.
\<close>

theorem status_overridden_and_out_of_step:
  "map_sum id (\<lambda>b. status (availability b))
     (borrowBook 1 (borrower ''a@x.com'')
        (with_copies Maintenance 1 1 [] (new_book ''b1'' ''T'' ''A'' ''Fiction'' 0))) = Inr Borrowed \<and>
   map_sum id (\<lambda>b. status (availability b))
     (returnBook 2 ''a@x.com''
        (with_copies Reserved 2 1 [''a@x.com''] (new_book ''b1'' ''T'' ''A'' ''Fiction'' 0))) = Inr Available \<and>
   map_sum id (\<lambda>b. (availableCopies (availability b), totalCopies (availability b),
                     status (availability b), status_tracks_copies b))
     (borrowBook 1 (borrower ''a@x.com'')
        (with_copies Borrowed 2 2 [] (new_book ''b1'' ''T'' ''A'' ''Fiction'' 0))) =
     Inr (1, 2, Borrowed, False)"
  by (simp add: example_defs action_defs status_tracks_copies_def)

section \<open>The rating aggregate\<close>

lemma foldl_rating_sum:
  "foldl (\<lambda>sum r. sum + rating r) a rs = a + sum_list (map rating rs)"
  by (induction rs arbitrary: a) simp_all

lemma reviews_save: "reviews (save now b) = reviews b"
  by (simp add: save_def pre_save_def Let_def)

lemma totalReviews_save: "totalReviews (save now b) = int (length (reviews b))"
  by (simp add: save_def pre_save_def Let_def)

lemma averageRating_save:
  "averageRating (save now b) =
     (if reviews b = [] then 0
      else of_int (Math_round (mean (map rating (reviews b)) * 10)) / 10)"
  by (simp add: save_def pre_save_def Let_def foldl_rating_sum mean_def)

lemma rounded_Math_round: "rounded_to_one_decimal (of_int (Math_round (x * 10)) / 10) x"
proof -
  let ?k = "Math_round (x * 10)"
  have "\<lfloor>x * 10 + 1 / 2\<rfloor> = ?k" by (simp add: Math_round_def)
  then have "\<bar>of_int ?k / 10 - x\<bar> \<le> 1 / 20" by linarith
  then show ?thesis by (simp add: rounded_to_one_decimal_def)
qed

lemma reviews_addReview: "reviews (addReview now rd b) = reviews b @ [new_review (now, rd)]"
  by (simp add: addReview_def reviews_save new_review_def)

lemma reviews_add_reviews: "reviews (add_reviews rs b) = reviews b @ map new_review rs"
  by (induction rs arbitrary: b) (auto simp: reviews_addReview)

lemma aggregate_ok_save: "aggregate_ok (save now b)"
  by (simp add: aggregate_ok_def reviews_save totalReviews_save averageRating_save)

lemma aggregate_ok_add_reviews:
  "aggregate_ok b \<or> rs \<noteq> [] \<Longrightarrow> aggregate_ok (add_reviews rs b)"
proof (induction rs arbitrary: b)
  case Nil
  then show ?case by simp
next
  case (Cons r rs)
  obtain now rd where r: "r = (now, rd)" by (cases r)
  have "aggregate_ok (addReview now rd b)" by (simp add: addReview_def aggregate_ok_save)
  then show ?case using Cons.IH r by simp
qed

text \<open>
  Claim C4. After every non-empty sequence of review additions to a book, its reviews are
  the earlier ones followed by the added ones, \<open>totalReviews\<close> is their number and
  \<open>averageRating\<close> is the mean of all their ratings rounded to one decimal (a multiple of
  one tenth at most half a tenth from the mean; a tie goes up). A document saved with no
  review has \<open>averageRating = 0\<close> and \<open>totalReviews = 0\<close>. Ratings \<open>5\<close> and \<open>3\<close> added to
  a book without reviews give \<open>averageRating = 4\<close> and \<open>totalReviews = 2\<close>.
\<close>

theorem rating_aggregate:
  "rs \<noteq> [] \<Longrightarrow>
     reviews (add_reviews rs b) = reviews b @ map new_review rs \<and>
     totalReviews (add_reviews rs b) = int (length (reviews (add_reviews rs b))) \<and>
     averageRating (add_reviews rs b) =
       of_int (Math_round (mean (map rating (reviews (add_reviews rs b))) * 10)) / 10 \<and>
     rounded_to_one_decimal (averageRating (add_reviews rs b))
       (mean (map rating (reviews (add_reviews rs b)))) \<and>
     (reviews c = [] \<longrightarrow> averageRating (save now c) = 0 \<and> totalReviews (save now c) = 0) \<and>
     (reviews c = [] \<and> rd_rating r1 = 5 \<and> rd_rating r2 = 3 \<longrightarrow>
        averageRating (add_reviews [(t1, r1), (t2, r2)] c) = 4 \<and>
        totalReviews (add_reviews [(t1, r1), (t2, r2)] c) = 2)"
proof -
  assume ne: "rs \<noteq> []"
  let ?b = "add_reviews rs b"
  have rv: "reviews ?b = reviews b @ map new_review rs" by (rule reviews_add_reviews)
  with ne have nz: "reviews ?b \<noteq> []" by simp
  from ne have ok: "aggregate_ok ?b" by (simp add: aggregate_ok_add_reviews)
  from ok have tr: "totalReviews ?b = int (length (reviews ?b))"
    by (simp add: aggregate_ok_def)
  from ok nz have ar: "averageRating ?b =
       of_int (Math_round (mean (map rating (reviews ?b)) * 10)) / 10"
    by (simp add: aggregate_ok_def)
  have rd: "rounded_to_one_decimal (averageRating ?b) (mean (map rating (reviews ?b)))"
    unfolding ar by (rule rounded_Math_round)
  have em: "reviews c = [] \<longrightarrow> averageRating (save now c) = 0 \<and> totalReviews (save now c) = 0"
    by (simp add: averageRating_save totalReviews_save)
  have two: "reviews c = [] \<and> rd_rating r1 = 5 \<and> rd_rating r2 = 3 \<longrightarrow>
        averageRating (add_reviews [(t1, r1), (t2, r2)] c) = 4 \<and>
        totalReviews (add_reviews [(t1, r1), (t2, r2)] c) = 2"
  proof
    assume h: "reviews c = [] \<and> rd_rating r1 = 5 \<and> rd_rating r2 = 3"
    let ?c = "add_reviews [(t1, r1), (t2, r2)] c"
    have okc: "aggregate_ok ?c" by (rule aggregate_ok_add_reviews) simp
    have rc: "map rating (reviews ?c) = [5, 3]"
      using h by (simp add: reviews_add_reviews new_review_def del: add_reviews.simps)
    have len: "length (reviews ?c) = 2"
      using h by (simp add: reviews_add_reviews del: add_reviews.simps)
    then have nz: "reviews ?c \<noteq> []" by auto
    have fl: "Math_round (mean [5, 3] * 10) = 40"
      by (simp add: mean_def Math_round_def floor_eq_iff)
    from okc nz have "averageRating ?c =
        of_int (Math_round (mean (map rating (reviews ?c)) * 10)) / 10"
      by (simp add: aggregate_ok_def del: add_reviews.simps)
    then have "averageRating ?c = 4" unfolding rc fl by simp
    moreover from okc len have "totalReviews ?c = 2"
      by (simp add: aggregate_ok_def del: add_reviews.simps)
    ultimately show "averageRating ?c = 4 \<and> totalReviews ?c = 2" by simp
  qed
  from rv tr ar rd em two show ?thesis by blast
qed

text \<open>Ratings 4, 5 and 4 give 4.3; ratings 5 and 3 give 4; no review gives 0.\<close>

theorem rating_aggregate_examples:
  "averageRating (add_reviews
       [(1, \<lparr>rd_rating = 4, rd_comment = None, rd_reviewerName = ''Ann''\<rparr>),
        (2, \<lparr>rd_rating = 5, rd_comment = None, rd_reviewerName = ''Bob''\<rparr>),
        (3, \<lparr>rd_rating = 4, rd_comment = Some ''fine'', rd_reviewerName = ''Cy''\<rparr>)]
       (new_book ''b1'' ''T'' ''A'' ''Fiction'' 0)) = 43 / 10 \<and>
   totalReviews (add_reviews
       [(1, \<lparr>rd_rating = 4, rd_comment = None, rd_reviewerName = ''Ann''\<rparr>),
        (2, \<lparr>rd_rating = 5, rd_comment = None, rd_reviewerName = ''Bob''\<rparr>),
        (3, \<lparr>rd_rating = 4, rd_comment = Some ''fine'', rd_reviewerName = ''Cy''\<rparr>)]
       (new_book ''b1'' ''T'' ''A'' ''Fiction'' 0)) = 3 \<and>
   averageRating (add_reviews
       [(1, \<lparr>rd_rating = 5, rd_comment = None, rd_reviewerName = ''Ann''\<rparr>),
        (2, \<lparr>rd_rating = 3, rd_comment = None, rd_reviewerName = ''Bob''\<rparr>)]
       (new_book ''b1'' ''T'' ''A'' ''Fiction'' 0)) = 4 \<and>
   averageRating (save 9 (new_book ''b1'' ''T'' ''A'' ''Fiction'' 0)) = 0"
proof -
  let ?rs = "[(1::int, \<lparr>rd_rating = 4, rd_comment = None, rd_reviewerName = ''Ann''\<rparr>),
        (2, \<lparr>rd_rating = 5, rd_comment = None, rd_reviewerName = ''Bob''\<rparr>),
        (3, \<lparr>rd_rating = 4, rd_comment = Some ''fine'', rd_reviewerName = ''Cy''\<rparr>)]"
  let ?r1 = "\<lparr>rd_rating = 5, rd_comment = None, rd_reviewerName = ''Ann''\<rparr>"
  let ?r2 = "\<lparr>rd_rating = 3, rd_comment = None, rd_reviewerName = ''Bob''\<rparr>"
  let ?b = "new_book ''b1'' ''T'' ''A'' ''Fiction'' 0"
  have ne: "?rs \<noteq> []" by simp
  have e: "reviews ?b = []" by (simp add: new_book_def)
  have r: "rd_rating ?r1 = 5 \<and> rd_rating ?r2 = 3" by simp
  note t = rating_aggregate[OF ne, where b = ?b and c = ?b and now = 9
      and ?r1.0 = ?r1 and ?r2.0 = ?r2 and ?t1.0 = 1 and ?t2.0 = 2]
  from t have rv: "reviews (add_reviews ?rs ?b) = reviews ?b @ map new_review ?rs" by blast
  then have m: "map rating (reviews (add_reviews ?rs ?b)) = [4, 5, 4]"
    by (simp add: e new_review_def del: add_reviews.simps)
  from t have "averageRating (add_reviews ?rs ?b) =
       of_int (Math_round (mean (map rating (reviews (add_reviews ?rs ?b))) * 10)) / 10" by blast
  moreover have "Math_round (mean [4, 5, 4] * 10) = 43"
    by (simp add: mean_def Math_round_def floor_eq_iff)
  ultimately have A: "averageRating (add_reviews ?rs ?b) = 43 / 10"
    unfolding m by simp
  from t have "totalReviews (add_reviews ?rs ?b) = int (length (reviews (add_reviews ?rs ?b)))"
    by blast
  then have B: "totalReviews (add_reviews ?rs ?b) = 3" unfolding rv by (simp add: e)
  from t e r have C: "averageRating (add_reviews [(1, ?r1), (2, ?r2)] ?b) = 4" by blast
  from t e have D: "averageRating (save 9 ?b) = 0" by blast
  from A B C D show ?thesis by blast
qed

section \<open>Sorting in the store\<close>

lemma set_insert_by: "set (insert_by le x xs) = insert x (set xs)"
  by (induction xs) auto

lemma length_insert_by: "length (insert_by le x xs) = Suc (length xs)"
  by (induction xs) auto

lemma set_sort_by: "set (sort_by le xs) = set xs"
  by (induction xs) (auto simp: sort_by_def set_insert_by)

lemma length_sort_by: "length (sort_by le xs) = length xs"
  by (induction xs) (auto simp: sort_by_def length_insert_by)

lemma sorted_insert_by:
  assumes tot: "\<And>a b. le a b \<or> le b a" and tr: "\<And>a b c. le a b \<Longrightarrow> le b c \<Longrightarrow> le a c"
  shows "sorted_wrt le xs \<Longrightarrow> sorted_wrt le (insert_by le x xs)"
proof (induction xs)
  case Nil
  then show ?case by simp
next
  case (Cons y ys)
  show ?case
  proof (cases "le x y")
    case True
    with Cons.prems tr show ?thesis by auto
  next
    case False
    with tot have "le y x" by blast
    with Cons False show ?thesis by (auto simp: set_insert_by)
  qed
qed

lemma sorted_sort_by:
  assumes tot: "\<And>a b. le a b \<or> le b a" and tr: "\<And>a b c. le a b \<Longrightarrow> le b c \<Longrightarrow> le a c"
  shows "sorted_wrt le (sort_by le xs)"
proof (induction xs)
  case Nil
  show ?case by (simp add: sort_by_def)
next
  case (Cons x xs)
  have "sort_by le (x # xs) = insert_by le x (sort_by le xs)" by (simp add: sort_by_def)
  with Cons sorted_insert_by[of le, OF tot tr] show ?case by simp
qed

lemma sort_by_Cons: "sort_by le (x # xs) = insert_by le x (sort_by le xs)"
  by (simp add: sort_by_def)

lemma distinct_map_insert_by:
  "distinct (map f (insert_by le x xs)) \<longleftrightarrow> f x \<notin> f ` set xs \<and> distinct (map f xs)"
  by (induction xs) (auto simp: set_insert_by)

lemma distinct_map_sort_by: "distinct (map f (sort_by le xs)) = distinct (map f xs)"
proof (induction xs)
  case Nil
  show ?case by (simp add: sort_by_def)
next
  case (Cons x xs)
  then show ?case by (simp add: sort_by_Cons distinct_map_insert_by set_sort_by)
qed

lemma sorted_strict:
  "sorted_wrt (\<lambda>x y. f y \<le> (f x :: int)) xs \<Longrightarrow> distinct (map f xs) \<Longrightarrow>
     sorted_wrt (\<lambda>x y. f y < f x) xs"
proof (induction xs)
  case Nil
  then show ?case by simp
next
  case (Cons x xs)
  have "\<forall>y\<in>set xs. f y < f x"
  proof
    fix y assume y: "y \<in> set xs"
    with Cons.prems have "f y \<le> f x" "f x \<noteq> f y" by auto
    then show "f y < f x" by simp
  qed
  with Cons show ?case by simp
qed

lemma top_of_sorted:
  assumes s: "sorted_wrt R xs" and x: "x \<in> set (take n xs)" and z: "z \<in> set xs"
    and nz: "z \<notin> set (take n xs)"
  shows "R x z \<and> length (take n xs) = n"
proof -
  from s have "sorted_wrt R (take n xs @ drop n xs)" by simp
  then have a: "\<forall>a\<in>set (take n xs). \<forall>b\<in>set (drop n xs). R a b"
    by (simp only: sorted_wrt_append) blast
  from z have "z \<in> set (take n xs @ drop n xs)" by simp
  with nz have zd: "z \<in> set (drop n xs)" by (simp only: set_append) blast
  then have "drop n xs \<noteq> []" by auto
  then have "n < length xs" by simp
  with a x zd show ?thesis by simp
qed

section \<open>Pages of a listing\<close>

lemma ceil_pages:
  assumes "0 < l"
  shows "(Math_ceil (of_int t / of_int l) - 1) * l < t \<and> t \<le> Math_ceil (of_int t / of_int l) * l"
proof -
  let ?k = "Math_ceil (of_int t / of_int l)"
  have l0: "(0::rat) < of_int l" using assms by simp
  have "of_int ?k - 1 < (of_int t / of_int l :: rat)" unfolding Math_ceil_def by linarith
  then have "(of_int ?k - 1) * of_int l < (of_int t :: rat)" using l0 by (simp add: pos_less_divide_eq)
  then have "(of_int ((?k - 1) * l) :: rat) < of_int t" by simp
  then have a: "(?k - 1) * l < t" by (simp only: of_int_less_iff)
  have "(of_int t / of_int l :: rat) \<le> of_int ?k" unfolding Math_ceil_def by linarith
  then have "(of_int t :: rat) \<le> of_int ?k * of_int l" using l0 by (simp add: pos_divide_le_eq)
  then have "(of_int t :: rat) \<le> of_int (?k * l)" by simp
  then have b: "t \<le> ?k * l" by (simp only: of_int_le_iff)
  from a b show ?thesis by simp
qed

lemma pages_unique:
  assumes "0 < (l::int)" "(k - 1) * l < t" "t \<le> k * l" "(k' - 1) * l < t" "t \<le> k' * l"
  shows "k = k'"
proof (rule ccontr)
  assume "k \<noteq> k'"
  then consider "k + 1 \<le> k'" | "k' + 1 \<le> k" by linarith
  then show False
  proof cases
    case 1
    then have "k * l \<le> (k' - 1) * l" using assms(1) by (simp add: mult_right_mono)
    with assms show False by linarith
  next
    case 2
    then have "k' * l \<le> (k - 1) * l" using assms(1) by (simp add: mult_right_mono)
    with assms show False by linarith
  qed
qed

lemma next_page: 
  assumes "0 < l"
  shows "p < Math_ceil (of_int t / of_int l) \<longleftrightarrow> p * l < t"
proof -
  have l0: "(0::rat) < of_int l" using assms by simp
  have "p < Math_ceil (of_int t / of_int l) \<longleftrightarrow> (of_int p :: rat) < of_int t / of_int l"
    by (simp add: Math_ceil_def less_ceiling_iff)
  also have "\<dots> \<longleftrightarrow> (of_int p * of_int l :: rat) < of_int t" using l0 by (simp add: pos_less_divide_eq)
  also have "\<dots> \<longleftrightarrow> (of_int (p * l) :: rat) < of_int t" by simp
  also have "\<dots> \<longleftrightarrow> p * l < t" by (simp only: of_int_less_iff)
  finally show ?thesis .
qed

lemma nat_min_diff: "int (min (n - a) b) = min (int b) (max 0 (int n - int a))"
  by arith

lemma length_page:
  assumes "0 \<le> s" "0 < l"
  shows "int (length (take (nat l) (drop (nat s) xs))) = min l (max 0 (int (length xs) - s))"
proof -
  have "int (length (take (nat l) (drop (nat s) xs))) = int (min (length xs - nat s) (nat l))"
    by (simp add: min.commute)
  also have "\<dots> = min (int (nat l)) (max 0 (int (length xs) - int (nat s)))"
    by (rule nat_min_diff)
  finally show ?thesis using assms by simp
qed

lemma validateQuery_search_Inr:
  assumes "validateQuery_search q = Inr q'"
  shows "\<exists>p l. q_page q' = Some p \<and> q_limit q' = Some l \<and> 1 \<le> p \<and> 1 \<le> l \<and> l \<le> 100 \<and>
           p = (case q_page q of None \<Rightarrow> 1 | Some x \<Rightarrow> x) \<and>
           l = (case q_limit q of None \<Rightarrow> 10 | Some x \<Rightarrow> x)"
    and "q_sortBy q' = Some (case q_sortBy q of None \<Rightarrow> by_title | Some f \<Rightarrow> f)"
    and "q_sortOrder q' = Some (case q_sortOrder q of None \<Rightarrow> asc | Some d \<Rightarrow> d)"
  using assms
  by (auto simp: validateQuery_search_def Let_def split: if_splits option.splits)

lemma getAllBooks_valid:
  assumes p: "q_page q = Some p" "1 \<le> p" and l: "q_limit q = Some l" "1 \<le> l"
  shows "getAllBooks rx q db =
     Inr \<lparr>books = take (nat l) (drop (nat ((p - 1) * l))
                     (sort_by (sort_le (sort_of q)) (filter (matches rx q) db))),
          pagination =
            \<lparr>currentPage = p,
             totalPages = Math_ceil (of_int (int (length (filter (matches rx q) db))) / of_int l),
             totalBooks = int (length (filter (matches rx q) db)),
             hasNextPage = (p < Math_ceil (of_int (int (length (filter (matches rx q) db))) / of_int l)),
             hasPrevPage = (p > 1), limit = l\<rparr>,
          filters_sortBy = (case q_sortBy q of None \<Rightarrow> by_createdAt | Some f \<Rightarrow> f),
          filters_sortOrder = (case q_sortOrder q of None \<Rightarrow> desc | Some d \<Rightarrow> d)\<rparr>"
proof -
  have "0 \<le> (p - 1) * l" using p l by simp
  then have "\<not> (p - 1) * l < 0" by simp
  then show ?thesis using p l
    by (simp add: getAllBooks_def or_default_def limit_docs_def Let_def)
qed

lemma matches_no_filter:
  "q_search q = None \<Longrightarrow> q_genre q = None \<Longrightarrow> q_availability q = None \<Longrightarrow>
   q_author q = None \<Longrightarrow> q_yearFrom q = None \<Longrightarrow> q_yearTo q = None \<Longrightarrow>
   q_minRating q = None \<Longrightarrow> matches rx q b"
  by (simp add: matches_def)

text \<open>
  Claim C6. For every list request that the route answers, the page is cut from the sorted
  matches of the validated query, and the pagination holds
  \<open>totalPages = ceil (totalBooks / limit)\<close>, which is the one number of pages with
  \<open>(totalPages - 1) * limit < totalBooks \<le> totalPages * limit\<close>,
  \<open>hasNextPage = (page < totalPages)\<close>, which holds exactly when records remain after the
  page, and \<open>hasPrevPage = (page > 1)\<close>; the page holds \<open>limit\<close> records or what is left
  of them. With \<open>limit = 10\<close> and \<open>totalBooks = 25\<close> there are \<open>3\<close> pages, and page \<open>3\<close>
  holds the remaining \<open>5\<close> records.
\<close>

theorem list_pagination:
  "list_route rx q db = Inr (Inr r) \<Longrightarrow>
     (\<exists>q'. validateQuery_search q = Inr q' \<and>
        totalBooks (pagination r) = int (length (filter (matches rx q') db)) \<and>
        books r = take (nat (limit (pagination r)))
                   (drop (nat ((currentPage (pagination r) - 1) * limit (pagination r)))
                      (sort_by (sort_le (sort_of q')) (filter (matches rx q') db)))) \<and>
     currentPage (pagination r) = (case q_page q of None \<Rightarrow> 1 | Some p \<Rightarrow> p) \<and>
     limit (pagination r) = (case q_limit q of None \<Rightarrow> 10 | Some l \<Rightarrow> l) \<and>
     1 \<le> currentPage (pagination r) \<and> 1 \<le> limit (pagination r) \<and>
     totalPages (pagination r) =
       Math_ceil (of_int (totalBooks (pagination r)) / of_int (limit (pagination r))) \<and>
     (totalPages (pagination r) - 1) * limit (pagination r) < totalBooks (pagination r) \<and>
     totalBooks (pagination r) \<le> totalPages (pagination r) * limit (pagination r) \<and>
     hasNextPage (pagination r) = (currentPage (pagination r) < totalPages (pagination r)) \<and>
     hasNextPage (pagination r) =
       (currentPage (pagination r) * limit (pagination r) < totalBooks (pagination r)) \<and>
     hasPrevPage (pagination r) = (currentPage (pagination r) > 1) \<and>
     int (length (books r)) =
       min (limit (pagination r))
         (max 0 (totalBooks (pagination r) -
                 (currentPage (pagination r) - 1) * limit (pagination r))) \<and>
     (limit (pagination r) = 10 \<and> totalBooks (pagination r) = 25 \<longrightarrow>
        totalPages (pagination r) = 3 \<and>
        (currentPage (pagination r) = 3 \<longrightarrow> length (books r) = 5))"
proof -
  assume a: "list_route rx q db = Inr (Inr r)"
  then obtain q' where v: "validateQuery_search q = Inr q'" and g: "getAllBooks rx q' db = Inr r"
    by (auto simp: list_route_def split: sum.splits)
  from validateQuery_search_Inr(1)[OF v] obtain p l where
    pl: "q_page q' = Some p" "q_limit q' = Some l" "1 \<le> p" "1 \<le> l" "l \<le> 100"
      "p = (case q_page q of None \<Rightarrow> 1 | Some x \<Rightarrow> x)"
      "l = (case q_limit q of None \<Rightarrow> 10 | Some x \<Rightarrow> x)"
    by blast
  let ?found = "filter (matches rx q') db"
  let ?t = "int (length ?found)"
  let ?k = "Math_ceil (of_int ?t / of_int l)"
  from g getAllBooks_valid[OF pl(1) pl(3) pl(2) pl(4), of rx db]
  have r: "r = \<lparr>books = take (nat l) (drop (nat ((p - 1) * l))
                     (sort_by (sort_le (sort_of q')) ?found)),
          pagination =
            \<lparr>currentPage = p, totalPages = ?k, totalBooks = ?t,
             hasNextPage = (p < ?k), hasPrevPage = (p > 1), limit = l\<rparr>,
          filters_sortBy = (case q_sortBy q' of None \<Rightarrow> by_createdAt | Some f \<Rightarrow> f),
          filters_sortOrder = (case q_sortOrder q' of None \<Rightarrow> desc | Some d \<Rightarrow> d)\<rparr>"
    by simp
  have l0: "0 < l" using pl(4) by simp
  have c: "(?k - 1) * l < ?t" "?t \<le> ?k * l" using ceil_pages[OF l0, of ?t] by simp_all
  have n: "(p < ?k) = (p * l < ?t)" by (rule next_page[OF l0])
  have sk: "0 \<le> (p - 1) * l" using pl by simp
  have len: "int (length (books r)) = min l (max 0 (?t - (p - 1) * l))"
    using length_page[OF sk l0, of "sort_by (sort_le (sort_of q')) ?found"]
    by (simp add: r length_sort_by)
  have ex: "l = 10 \<and> ?t = 25 \<longrightarrow> ?k = 3 \<and> (p = 3 \<longrightarrow> length (books r) = 5)"
  proof
    assume h: "l = 10 \<and> ?t = 25"
    with c have "?k = 3" by (intro pages_unique[of 10 ?k 25 3]) simp_all
    moreover from len h have "p = 3 \<longrightarrow> length (books r) = 5" by auto
    ultimately show "?k = 3 \<and> (p = 3 \<longrightarrow> length (books r) = 5)" by simp
  qed
  have A: "\<exists>q'. validateQuery_search q = Inr q' \<and>
        totalBooks (pagination r) = int (length (filter (matches rx q') db)) \<and>
        books r = take (nat (limit (pagination r)))
                   (drop (nat ((currentPage (pagination r) - 1) * limit (pagination r)))
                      (sort_by (sort_le (sort_of q')) (filter (matches rx q') db)))"
    using v by (intro exI[of _ q']) (simp add: r)
  show ?thesis
    apply (intro conjI)
    subgoal by (rule A)
    subgoal using pl(6) by (simp add: r)
    subgoal using pl(7) by (simp add: r)
    subgoal using pl(3) by (simp add: r)
    subgoal using pl(4) by (simp add: r)
    subgoal by (simp add: r)
    subgoal using c(1) by (simp add: r)
    subgoal using c(2) by (simp add: r)
    subgoal by (simp add: r)
    subgoal using n by (simp add: r)
    subgoal by (simp add: r)
    subgoal using len by (simp add: r)
    subgoal using ex by (simp add: r)
    done
qed

text \<open>Page 3 of 25 books, ten to a page.\<close>

theorem list_pagination_25_by_10:
  "map_sum id (map_sum id (\<lambda>r. (totalBooks (pagination r), totalPages (pagination r),
        length (books r), hasPrevPage (pagination r), hasNextPage (pagination r))))
     (list_route (\<lambda>p t. False) (no_params\<lparr>q_page := Some 3\<rparr>) (numbered_books ''Fiction'' 25)) =
   Inr (Inr (25, 3, 5, True, False))"
proof -
  let ?rx = "\<lambda>p t :: string. False"
  let ?q = "no_params\<lparr>q_page := Some 3\<rparr>"
  let ?db = "numbered_books ''Fiction'' 25"
  let ?q' = "no_params\<lparr>q_sortBy := Some by_title, q_sortOrder := Some asc,
                        q_page := Some 3, q_limit := Some 10\<rparr>"
  have v: "validateQuery_search ?q = Inr ?q'"
    by (simp add: validateQuery_search_def no_params_def)
  have m: "filter (matches ?rx ?q') ?db = ?db"
    by (simp add: matches_no_filter no_params_def)
  have p: "q_page ?q' = Some 3" "(1::int) \<le> 3" "q_limit ?q' = Some 10" "(1::int) \<le> 10"
    by (simp_all add: no_params_def)
  note g = getAllBooks_valid[OF p, of ?rx ?db]
  define r where "r = projr (getAllBooks ?rx ?q' ?db)"
  have gr: "getAllBooks ?rx ?q' ?db = Inr r"
    unfolding r_def by (simp only: g sum.sel)
  have e: "list_route ?rx ?q ?db = Inr (Inr r)"
    by (simp only: list_route_def v sum.case gr)
  have f: "limit (pagination r) = 10" "totalBooks (pagination r) = 25"
    "currentPage (pagination r) = 3"
    unfolding r_def by (simp_all only: g sum.sel m) (simp_all add: numbered_books_def)
  from list_pagination[OF e] f show ?thesis by (simp add: e)
qed

text \<open>
  Claim C7 at a request without parameters, on two books of which the older has the
  smaller title. The validator replaces the query by one with the defaults of its schema,
  \<open>sortBy = 'title'\<close> and \<open>sortOrder = 'asc'\<close> among them, so the handler never reaches its
  own default (\<open>createdAt\<close> descending, "newest first"): the route answers with the older
  book first, where the handler alone puts the newer book first. The page is \<open>1\<close> and the
  limit \<open>10\<close>.
\<close>

theorem default_sort_is_title_ascending:
  "map_sum id (map_sum id (\<lambda>r. (map title (books r), currentPage (pagination r),
        limit (pagination r), filters_sortBy r, filters_sortOrder r)))
     (list_route (\<lambda>p t. False) no_params two_books) =
     Inr (Inr ([''Alpha'', ''Beta''], 1, 10, by_title, asc)) \<and>
   map_sum id (\<lambda>r. (map title (books r), filters_sortBy r, filters_sortOrder r))
     (getAllBooks (\<lambda>p t. False) no_params two_books) =
     Inr ([''Beta'', ''Alpha''], by_createdAt, desc) \<and>
   map createdAt two_books = [1, 2]"
  by (simp add: list_route_def validateQuery_search_def getAllBooks_def no_params_def
      two_books_def new_book_def or_default_def limit_docs_def sort_by_def sort_of_def
      matches_def Math_ceil_def ceiling_eq_iff Let_def)

section \<open>Books of a genre\<close>

text \<open>
  Claim C10. \<open>getBooksByGenre\<close> never answers with an empty list: whenever the store
  returns no document for the requested page, the request fails with the 404 error "No
  books found in ... genre"; so it does for a page past the last one of a genre that has
  books.
\<close>

theorem empty_genre_page_not_found:
  "(getBooksByGenre g qpage qlimit db = Inr r \<longrightarrow> gr_books r \<noteq> []) \<and>
   (0 \<le> (or_default qpage 1 - 1) * or_default qlimit 10 \<and>
    limit_docs (or_default qlimit 10)
      (drop (nat ((or_default qpage 1 - 1) * or_default qlimit 10))
         (sort_by (sort_le [(by_averageRating, -1), (by_createdAt, -1)])
            (filter (\<lambda>b. genre b = g) db))) = [] \<longrightarrow>
      getBooksByGenre g qpage qlimit db =
        Inl (AppError (''No books found in '' @ g @ '' genre'') 404)) \<and>
   (1 \<le> p \<and> 1 \<le> l \<and> int (length (filter (\<lambda>b. genre b = g) db)) \<le> (p - 1) * l \<longrightarrow>
      getBooksByGenre g (Some p) (Some l) db =
        Inl (AppError (''No books found in '' @ g @ '' genre'') 404))"
proof (intro conjI impI)
  assume "getBooksByGenre g qpage qlimit db = Inr r"
  then show "gr_books r \<noteq> []"
    by (auto simp: getBooksByGenre_def Let_def split: if_splits)
next
  assume "0 \<le> (or_default qpage 1 - 1) * or_default qlimit 10 \<and>
    limit_docs (or_default qlimit 10)
      (drop (nat ((or_default qpage 1 - 1) * or_default qlimit 10))
         (sort_by (sort_le [(by_averageRating, -1), (by_createdAt, -1)])
            (filter (\<lambda>b. genre b = g) db))) = []"
  then show "getBooksByGenre g qpage qlimit db =
        Inl (AppError (''No books found in '' @ g @ '' genre'') 404)"
    by (simp add: getBooksByGenre_def Let_def)
next
  assume h: "1 \<le> p \<and> 1 \<le> l \<and> int (length (filter (\<lambda>b. genre b = g) db)) \<le> (p - 1) * l"
  then have sk: "0 \<le> (p - 1) * l" by simp
  from h have "length (filter (\<lambda>b. genre b = g) db) \<le> nat ((p - 1) * l)" by linarith
  then have "drop (nat ((p - 1) * l))
         (sort_by (sort_le [(by_averageRating, -1), (by_createdAt, -1)])
            (filter (\<lambda>b. genre b = g) db)) = []"
    by (simp add: length_sort_by)
  with h sk show "getBooksByGenre g (Some p) (Some l) db =
        Inl (AppError (''No books found in '' @ g @ '' genre'') 404)"
    by (simp add: getBooksByGenre_def or_default_def limit_docs_def Let_def)
qed

text \<open>Page 2 of a genre with three books, and a genre without books.\<close>

theorem genre_page_past_the_last:
  "length (filter (\<lambda>b. genre b = ''Fiction'') (numbered_books ''Fiction'' 3)) = 3 \<and>
   getBooksByGenre ''Fiction'' (Some 2) (Some 10) (numbered_books ''Fiction'' 3) =
     Inl (AppError ''No books found in Fiction genre'' 404) \<and>
   getBooksByGenre ''Poetry'' None None (numbered_books ''Fiction'' 3) =
     Inl (AppError ''No books found in Poetry genre'' 404)"
proof -
  let ?db = "numbered_books ''Fiction'' 3"
  have n: "length (filter (\<lambda>b. genre b = ''Fiction'') ?db) = 3"
    by (simp add: numbered_books_def new_book_def)
  have n': "filter (\<lambda>b. genre b = ''Poetry'') ?db = []"
    by (simp add: numbered_books_def new_book_def)
  have h: "(1::int) \<le> 2 \<and> (1::int) \<le> 10 \<and>
      int (length (filter (\<lambda>b. genre b = ''Fiction'') ?db)) \<le> (2 - 1) * 10"
    using n by simp
  have h': "0 \<le> (or_default None 1 - 1) * or_default None 10 \<and>
    limit_docs (or_default None 10)
      (drop (nat ((or_default None 1 - 1) * or_default None 10))
         (sort_by (sort_le [(by_averageRating, -1), (by_createdAt, -1)])
            (filter (\<lambda>b. genre b = ''Poetry'') ?db))) = []"
    unfolding n' by (simp add: or_default_def limit_docs_def sort_by_def)
  from empty_genre_page_not_found[where g = "''Fiction''" and p = 2 and l = 10 and db = ?db] h
  have A: "getBooksByGenre ''Fiction'' (Some 2) (Some 10) ?db =
     Inl (AppError (''No books found in '' @ ''Fiction'' @ '' genre'') 404)" by blast
  from empty_genre_page_not_found[where g = "''Poetry''" and qpage = None and qlimit = None
      and db = ?db] h'
  have B: "getBooksByGenre ''Poetry'' None None ?db =
     Inl (AppError (''No books found in '' @ ''Poetry'' @ '' genre'') 404)" by blast
  from n A B show ?thesis by simp
qed

section \<open>Statistics\<close>

lemma group_ids_set: "set (group_ids ks) = set ks"
  by (simp add: group_ids_def)

lemma group_ids_distinct: "distinct (group_ids ks)"
  by (simp add: group_ids_def)

lemma set_map_filter_eq:
  "set (List.map_filter f xs) = {y. \<exists>x\<in>set xs. f x = Some y}"
  by (induction xs) (auto split: option.splits)

lemma genreStats_sorted: "sorted_wrt (\<lambda>x y. gs_count y \<le> gs_count x) (genreStats db)"
  unfolding genreStats_def by (rule sorted_sort_by) auto

lemma yearStats_ids:
  "map ys_id (map (\<lambda>y. \<lparr>ys_id = y, ys_count = c y\<rparr>) ks) = ks"
  by (induction ks) auto

text \<open>
  Claim C8, as the code has it. The genre breakdown holds every genre of the collection
  with the number of its books, sorted by that count descending. The year breakdown is
  sorted by year, most recent first, and cut after ten entries: it holds the ten most
  recent publication years (all of them if there are fewer), each with the number of its
  books, and every year it leaves out is older than every year it lists.
\<close>

theorem stats_breakdowns:
  "sorted_wrt (\<lambda>x y. gs_count y \<le> gs_count x) (genreDistribution (getBookStats db)) \<and>
   (\<forall>s\<in>set (genreDistribution (getBookStats db)).
      gs_count s = int (length (filter (\<lambda>b. genre b = gs_id s) db)) \<and> 0 < gs_count s) \<and>
   gs_id ` set (genreDistribution (getBookStats db)) = genre ` set db \<and>
   sorted_wrt (\<lambda>x y. ys_id y < ys_id x) (recentPublications (getBookStats db)) \<and>
   length (recentPublications (getBookStats db)) \<le> 10 \<and>
   (\<forall>s\<in>set (recentPublications (getBookStats db)).
      ys_count s = year_count db (ys_id s) \<and> 0 < ys_count s) \<and>
   (\<forall>b\<in>set db. \<forall>y. publicationYear b = Some y \<longrightarrow>
      y \<in> ys_id ` set (recentPublications (getBookStats db)) \<or>
      (length (recentPublications (getBookStats db)) = 10 \<and>
       (\<forall>s\<in>set (recentPublications (getBookStats db)). y < ys_id s)))"
proof -
  let ?years = "group_ids (List.map_filter publicationYear db)"
  let ?mk = "\<lambda>y. \<lparr>ys_id = y, ys_count = int (length (filter (\<lambda>b. publicationYear b = Some y) db))\<rparr>"
  let ?L = "sort_by (\<lambda>x y. ys_id x \<ge> ys_id y) (map ?mk ?years)"
  have ys: "recentPublications (getBookStats db) = take 10 ?L"
    by (simp add: getBookStats_def yearStats_def)
  have gs: "genreDistribution (getBookStats db) = genreStats db"
    by (simp add: getBookStats_def)
  have setL: "set ?L = ?mk ` set (List.map_filter publicationYear db)"
    by (simp add: set_sort_by group_ids_set)
  have yrs: "set (List.map_filter publicationYear db) = {y. \<exists>b\<in>set db. publicationYear b = Some y}"
    by (rule set_map_filter_eq)
  have sL: "sorted_wrt (\<lambda>x y. ys_id y \<le> ys_id x) ?L"
    by (rule sorted_sort_by) auto
  have dL: "distinct (map ys_id ?L)"
    by (simp add: distinct_map_sort_by yearStats_ids group_ids_distinct del: map_map)
  have stL: "sorted_wrt (\<lambda>x y. ys_id y < ys_id x) ?L"
    using sL dL by (rule sorted_strict)
  have A: "sorted_wrt (\<lambda>x y. gs_count y \<le> gs_count x) (genreDistribution (getBookStats db))"
    unfolding gs by (rule genreStats_sorted)
  have B: "\<forall>s\<in>set (genreDistribution (getBookStats db)).
      gs_count s = int (length (filter (\<lambda>b. genre b = gs_id s) db)) \<and> 0 < gs_count s"
    unfolding gs by (auto simp: genreStats_def set_sort_by group_ids_set filter_empty_conv)
  have C: "gs_id ` set (genreDistribution (getBookStats db)) = genre ` set db"
    unfolding gs by (auto simp: genreStats_def set_sort_by group_ids_set image_iff)
  have D: "sorted_wrt (\<lambda>x y. ys_id y < ys_id x) (recentPublications (getBookStats db))"
    unfolding ys using stL by (rule sorted_wrt_take)
  have E: "length (recentPublications (getBookStats db)) \<le> 10"
    unfolding ys by simp
  have F: "\<forall>s\<in>set (recentPublications (getBookStats db)).
      ys_count s = year_count db (ys_id s) \<and> 0 < ys_count s"
  proof
    fix s assume "s \<in> set (recentPublications (getBookStats db))"
    then have "s \<in> set ?L" unfolding ys by (rule in_set_takeD)
    with setL yrs show "ys_count s = year_count db (ys_id s) \<and> 0 < ys_count s"
      by (auto simp: year_count_def filter_empty_conv)
  qed
  have G: "\<forall>b\<in>set db. \<forall>y. publicationYear b = Some y \<longrightarrow>
      y \<in> ys_id ` set (recentPublications (getBookStats db)) \<or>
      (length (recentPublications (getBookStats db)) = 10 \<and>
       (\<forall>s\<in>set (recentPublications (getBookStats db)). y < ys_id s))"
  proof (intro ballI allI impI)
    fix b y assume b: "b \<in> set db" and y: "publicationYear b = Some y"
    then have zin: "?mk y \<in> set ?L" using setL yrs by auto
    show "y \<in> ys_id ` set (recentPublications (getBookStats db)) \<or>
      (length (recentPublications (getBookStats db)) = 10 \<and>
       (\<forall>s\<in>set (recentPublications (getBookStats db)). y < ys_id s))"
    proof (cases "?mk y \<in> set (take 10 ?L)")
      case True
      then have "ys_id (?mk y) \<in> ys_id ` set (take 10 ?L)" by (rule imageI)
      then show ?thesis unfolding ys by simp
    next
      case False
      have "length (take 10 ?L) = 10 \<and> (\<forall>s\<in>set (take 10 ?L). y < ys_id s)"
      proof (cases "take 10 ?L = []")
        case True
        with zin have "?L = []" by (cases ?L) auto
        with zin show ?thesis by simp
      next
        case ne: False
        then obtain x0 where x0: "x0 \<in> set (take 10 ?L)" by (cases "take 10 ?L") auto
        from top_of_sorted[OF stL x0 zin False] have len: "length (take 10 ?L) = 10" by simp
        have "\<forall>s\<in>set (take 10 ?L). y < ys_id s"
        proof
          fix s assume "s \<in> set (take 10 ?L)"
          from top_of_sorted[OF stL this zin False] show "y < ys_id s" by simp
        qed
        with len show ?thesis by simp
      qed
      then show ?thesis unfolding ys by simp
    qed
  qed
  from A B C D E F G show ?thesis by blast
qed

text \<open>The breakdowns of the shelf: four genres, the one with two books first, and one year.\<close>

theorem stats_of_a_shelf:
  "map gs_count (genreDistribution (getBookStats shelf)) = [2, 1, 1, 1] \<and>
   gs_id (hd (genreDistribution (getBookStats shelf))) = ''Sci-Fi'' \<and>
   sorted_wrt (\<lambda>x y. gs_count y \<le> gs_count x) (genreDistribution (getBookStats shelf)) \<and>
   map (\<lambda>s. (ys_id s, ys_count s)) (recentPublications (getBookStats shelf)) = [(1815, 1)] \<and>
   length (recentPublications (getBookStats shelf)) \<le> 10"
proof -
  have A: "map gs_count (genreDistribution (getBookStats shelf)) = [2, 1, 1, 1] \<and>
      gs_id (hd (genreDistribution (getBookStats shelf))) = ''Sci-Fi''"
    by (simp add: getBookStats_def genreStats_def shelf_def new_book_def group_ids_def sort_by_def)
  have B: "map (\<lambda>s. (ys_id s, ys_count s)) (recentPublications (getBookStats shelf)) = [(1815, 1)]"
    by (simp add: getBookStats_def yearStats_def shelf_def new_book_def group_ids_def
        sort_by_def)
  note t = stats_breakdowns[of shelf]
  from t have C: "sorted_wrt (\<lambda>x y. gs_count y \<le> gs_count x)
      (genreDistribution (getBookStats shelf))"
    by (rule conjunct1)
  from t have D: "length (recentPublications (getBookStats shelf)) \<le> 10"
    by (elim conjE)
  from A B C D show ?thesis by (intro conjI) simp_all
qed

text \<open>
  Eleven years, the oldest with two books and the others with one: the breakdown lists
  the ten recent years, and leaves out the year with the highest count.
\<close>

theorem recent_years_not_top_years:
  "map (\<lambda>s. (ys_id s, ys_count s)) (recentPublications (getBookStats year_books)) =
     [(2010, 1), (2009, 1), (2008, 1), (2007, 1), (2006, 1), (2005, 1), (2004, 1), (2003, 1),
      (2002, 1), (2001, 1)] \<and>
   year_count year_books 2000 = 2 \<and>
   \<not> top_years_by_count year_books (recentPublications (getBookStats year_books))"
  by (simp add: getBookStats_def yearStats_def year_books_def new_book_def group_ids_def
      sort_by_def year_count_def top_years_by_count_def)

section \<open>Similar books\<close>

lemma sort_le_rating_desc:
  "sort_le [(by_averageRating, -1)] = (\<lambda>a b. averageRating b \<le> averageRating a)"
  by (intro ext) auto

lemma or_default_nonzero: "d \<noteq> 0 \<Longrightarrow> or_default v d \<noteq> 0"
  by (simp add: or_default_def split: option.splits)

text \<open>
  Claim C9. A request for the books similar to an unknown id fails with the 404 error
  "Reference book not found". For a known reference book the answer holds only documents
  of the collection other than the reference that share its genre, its author or one of
  its tags; the reference itself is never among them; they are sorted by \<open>averageRating\<close>
  descending and there are at most \<open>limit\<close> of them, a document that is left out being
  rated no higher than any that is returned. The limit is \<open>5\<close> when the request gives
  none (or gives \<open>0\<close>).
\<close>

theorem similar_books:
  "(findById i db = None \<longrightarrow>
      getSimilarBooks i qlimit db = Inl (AppError ''Reference book not found'' 404)) \<and>
   (\<forall>reference. findById i db = Some reference \<longrightarrow>
      (\<exists>r. getSimilarBooks i qlimit db = Inr r \<and>
         (\<forall>b\<in>set (similarBooks r).
            b \<in> set db \<and> doc_id b \<noteq> i \<and>
            (genre b = genre reference \<or> author b = author reference \<or>
             set (tags b) \<inter> set (tags reference) \<noteq> {})) \<and>
         reference \<notin> set (similarBooks r) \<and>
         sorted_wrt (\<lambda>x y. averageRating y \<le> averageRating x) (similarBooks r) \<and>
         int (length (similarBooks r)) \<le> \<bar>or_default qlimit 5\<bar> \<and>
         (\<forall>b\<in>set db.
            doc_id b \<noteq> i \<and>
            (genre b = genre reference \<or> author b = author reference \<or>
             set (tags b) \<inter> set (tags reference) \<noteq> {}) \<and>
            b \<notin> set (similarBooks r) \<longrightarrow>
            int (length (similarBooks r)) = \<bar>or_default qlimit 5\<bar> \<and>
            (\<forall>x\<in>set (similarBooks r). averageRating b \<le> averageRating x)) \<and>
         similar_count r = int (length (similarBooks r)))) \<and>
   or_default None 5 = 5 \<and> or_default (Some 0) 5 = 5 \<and>
   (n \<noteq> 0 \<longrightarrow> or_default (Some n) 5 = n)"
proof (intro conjI impI allI)
  assume "findById i db = None"
  then show "getSimilarBooks i qlimit db = Inl (AppError ''Reference book not found'' 404)"
    by (simp add: getSimilarBooks_def Let_def)
next
  fix reference
  assume f: "findById i db = Some reference"
  let ?P = "\<lambda>b. doc_id b \<noteq> i \<and>
                 (genre b = genre reference \<or> author b = author reference \<or>
                  (\<exists>t\<in>set (tags b). t \<in> set (tags reference)))"
  let ?le = "\<lambda>a b :: book. averageRating b \<le> averageRating a"
  let ?S = "sort_by ?le (filter ?P db)"
  let ?n = "nat \<bar>or_default qlimit 5\<bar>"
  let ?sim = "take ?n ?S"
  let ?r = "\<lparr>referenceBook =
              \<lparr>ref_id = doc_id reference, ref_title = title reference,
               ref_author = author reference, ref_genre = genre reference\<rparr>,
            similarBooks = ?sim, similar_count = int (length ?sim)\<rparr>"
  define r where "r = ?r"
  have fields: "similarBooks r = ?sim" "similar_count r = int (length ?sim)"
    by (simp_all add: r_def)
  have nz: "or_default qlimit 5 \<noteq> 0" by (rule or_default_nonzero) simp
  have g: "getSimilarBooks i qlimit db = Inr r"
    using f nz
    by (simp add: r_def getSimilarBooks_def Let_def limit_docs_def sort_le_rating_desc)
  have sS: "sorted_wrt ?le ?S" by (rule sorted_sort_by) auto
  have sub: "set ?sim \<subseteq> set (filter ?P db)"
    using set_take_subset[of ?n ?S] by (simp add: set_sort_by)
  have rid: "doc_id reference = i" using findById_Some[OF f] by simp
  have P1: "\<forall>b\<in>set ?sim. b \<in> set db \<and> doc_id b \<noteq> i \<and>
            (genre b = genre reference \<or> author b = author reference \<or>
             set (tags b) \<inter> set (tags reference) \<noteq> {})"
    using sub by auto
  have P2: "reference \<notin> set ?sim" using P1 rid by blast
  have P3: "sorted_wrt ?le ?sim" using sS by (rule sorted_wrt_take)
  have P4: "int (length ?sim) \<le> \<bar>or_default qlimit 5\<bar>" by simp
  have P5: "\<forall>b\<in>set db.
            doc_id b \<noteq> i \<and>
            (genre b = genre reference \<or> author b = author reference \<or>
             set (tags b) \<inter> set (tags reference) \<noteq> {}) \<and>
            b \<notin> set ?sim \<longrightarrow>
            int (length ?sim) = \<bar>or_default qlimit 5\<bar> \<and>
            (\<forall>x\<in>set ?sim. averageRating b \<le> averageRating x)"
  proof (intro ballI impI)
    fix b assume b: "b \<in> set db"
      and h: "doc_id b \<noteq> i \<and>
            (genre b = genre reference \<or> author b = author reference \<or>
             set (tags b) \<inter> set (tags reference) \<noteq> {}) \<and>
            b \<notin> set ?sim"
    then have bS: "b \<in> set ?S" by (auto simp: set_sort_by)
    from h have nb: "b \<notin> set ?sim" by simp
    from bS nb have "b \<in> set (take ?n ?S @ drop ?n ?S)" by simp
    with nb have bd: "b \<in> set (drop ?n ?S)" by (simp only: set_append) blast
    then have "drop ?n ?S \<noteq> []" by auto
    then have "?n < length ?S" by simp
    then have len: "length ?sim = ?n" by simp
    have "\<forall>x\<in>set ?sim. averageRating b \<le> averageRating x"
    proof
      fix x assume "x \<in> set ?sim"
      from top_of_sorted[OF sS this bS nb] show "averageRating b \<le> averageRating x" by simp
    qed
    with len show "int (length ?sim) = \<bar>or_default qlimit 5\<bar> \<and>
            (\<forall>x\<in>set ?sim. averageRating b \<le> averageRating x)" by simp
  qed
  show "\<exists>r. getSimilarBooks i qlimit db = Inr r \<and>
         (\<forall>b\<in>set (similarBooks r).
            b \<in> set db \<and> doc_id b \<noteq> i \<and>
            (genre b = genre reference \<or> author b = author reference \<or>
             set (tags b) \<inter> set (tags reference) \<noteq> {})) \<and>
         reference \<notin> set (similarBooks r) \<and>
         sorted_wrt (\<lambda>x y. averageRating y \<le> averageRating x) (similarBooks r) \<and>
         int (length (similarBooks r)) \<le> \<bar>or_default qlimit 5\<bar> \<and>
         (\<forall>b\<in>set db.
            doc_id b \<noteq> i \<and>
            (genre b = genre reference \<or> author b = author reference \<or>
             set (tags b) \<inter> set (tags reference) \<noteq> {}) \<and>
            b \<notin> set (similarBooks r) \<longrightarrow>
            int (length (similarBooks r)) = \<bar>or_default qlimit 5\<bar> \<and>
            (\<forall>x\<in>set (similarBooks r). averageRating b \<le> averageRating x)) \<and>
         similar_count r = int (length (similarBooks r))"
  proof (intro exI[of _ r] conjI)
    show "getSimilarBooks i qlimit db = Inr r" by (rule g)
    show "\<forall>b\<in>set (similarBooks r).
            b \<in> set db \<and> doc_id b \<noteq> i \<and>
            (genre b = genre reference \<or> author b = author reference \<or>
             set (tags b) \<inter> set (tags reference) \<noteq> {})"
      unfolding fields by (rule P1)
    show "reference \<notin> set (similarBooks r)" unfolding fields by (rule P2)
    show "sorted_wrt (\<lambda>x y. averageRating y \<le> averageRating x) (similarBooks r)"
      unfolding fields by (rule P3)
    show "int (length (similarBooks r)) \<le> \<bar>or_default qlimit 5\<bar>"
      unfolding fields by (rule P4)
    show "\<forall>b\<in>set db.
            doc_id b \<noteq> i \<and>
            (genre b = genre reference \<or> author b = author reference \<or>
             set (tags b) \<inter> set (tags reference) \<noteq> {}) \<and>
            b \<notin> set (similarBooks r) \<longrightarrow>
            int (length (similarBooks r)) = \<bar>or_default qlimit 5\<bar> \<and>
            (\<forall>x\<in>set (similarBooks r). averageRating b \<le> averageRating x)"
      unfolding fields by (rule P5)
    show "similar_count r = int (length (similarBooks r))" unfolding fields by (rule refl)
  qed
next
  show "or_default None 5 = 5" by (simp add: or_default_def)
  show "or_default (Some 0) 5 = 5" by (simp add: or_default_def)
  assume "n \<noteq> 0"
  then show "or_default (Some n) 5 = n" by (simp add: or_default_def)
qed

text \<open>
  The books similar to the first book of the shelf: one by the same author, one with a
  common tag and one of the same genre, best rated first; the same with a limit of two; and
  an id that no book has.
\<close>

theorem similar_to_a_book_of_the_shelf:
  "getSimilarBooks ''zz'' None shelf = Inl (AppError ''Reference book not found'' 404) \<and>
   map_sum id (\<lambda>r. map doc_id (similarBooks r)) (getSimilarBooks ''r'' None shelf) =
     Inr [''b2'', ''b3'', ''b1''] \<and>
   map_sum id (\<lambda>r. map doc_id (similarBooks r)) (getSimilarBooks ''r'' (Some 2) shelf) =
     Inr [''b2'', ''b3''] \<and>
   map_sum id (\<lambda>r. hd shelf \<in> set (similarBooks r)) (getSimilarBooks ''r'' None shelf) = Inr False"
proof -
  have n: "findById ''zz'' shelf = None"
    by (simp add: findById_def shelf_def new_book_def)
  have s: "findById ''r'' shelf = Some (hd shelf)"
    by (simp add: findById_def shelf_def new_book_def)
  note none = similar_books[where i = "''zz''" and db = shelf and qlimit = None,
      THEN conjunct1, rule_format, OF n]
  note some = similar_books[where i = "''r''" and db = shelf and qlimit = None,
      THEN conjunct2, THEN conjunct1, rule_format, OF s]
  from some obtain r where r: "getSimilarBooks ''r'' None shelf = Inr r"
    and nr: "hd shelf \<notin> set (similarBooks r)"
    by (elim exE conjE)
  from r nr have D: "map_sum id (\<lambda>r. hd shelf \<in> set (similarBooks r))
      (getSimilarBooks ''r'' None shelf) = Inr False"
    by simp
  have B: "map_sum id (\<lambda>r. map doc_id (similarBooks r)) (getSimilarBooks ''r'' None shelf) =
     Inr [''b2'', ''b3'', ''b1'']"
    by (simp add: getSimilarBooks_def findById_def shelf_def new_book_def or_default_def
        limit_docs_def sort_by_def Let_def)
  have C: "map_sum id (\<lambda>r. map doc_id (similarBooks r)) (getSimilarBooks ''r'' (Some 2) shelf) =
     Inr [''b2'', ''b3'']"
    by (simp add: getSimilarBooks_def findById_def shelf_def new_book_def or_default_def
        limit_docs_def sort_by_def Let_def)
  from none B C D show ?thesis by (intro conjI)
qed

end
